theory Spec2Isabelle
  imports Main "HOL-Library.Word"
begin

section \<open>JavaScript strings\<close>

text \<open>
  A JavaScript string is a sequence of UTF-16 code units; \<open>length\<close>, \<open>substring\<close> and
  \<open>trim\<close> all count and inspect code units. The non-ASCII labels of the source are given
  by their code units.
\<close>

type_synonym jsstring = "16 word list"

definition ascii :: "string \<Rightarrow> jsstring" where
  "ascii s = map (\<lambda>c. of_nat (of_char c)) s"

text \<open>\<open>String.prototype.trim\<close> removes WhiteSpace and LineTerminator code units at both ends.\<close>

definition isWhiteSpace :: "16 word \<Rightarrow> bool" where
  "isWhiteSpace c \<longleftrightarrow>
     c \<in> set [0x0009, 0x000A, 0x000B, 0x000C, 0x000D, 0x0020, 0x00A0, 0x1680,
              0x2000, 0x2001, 0x2002, 0x2003, 0x2004, 0x2005, 0x2006, 0x2007,
              0x2008, 0x2009, 0x200A, 0x2028, 0x2029, 0x202F, 0x205F, 0x3000, 0xFEFF]"

definition trim :: "jsstring \<Rightarrow> jsstring" where
  "trim s = rev (dropWhile isWhiteSpace (rev (dropWhile isWhiteSpace s)))"

text \<open>\<open>s.substring(b, e)\<close> for non-negative integer arguments (swapped when \<open>b > e\<close>).\<close>

definition substring :: "jsstring \<Rightarrow> nat \<Rightarrow> nat \<Rightarrow> jsstring" where
  "substring s b e = (let lo = min b e; hi = max b e in take (hi - lo) (drop lo s))"

text \<open>\<open>Array.prototype.join\<close>.\<close>

fun join :: "jsstring \<Rightarrow> jsstring list \<Rightarrow> jsstring" where
  "join sep [] = []"
| "join sep [x] = x"
| "join sep (x # y # ys) = x @ sep @ join sep (y # ys)"

text \<open>The decimal digits of a natural number.\<close>

fun digitsOf :: "nat \<Rightarrow> jsstring" where
  "digitsOf n = (if n < 10 then [of_nat (48 + n)]
                 else digitsOf (n div 10) @ [of_nat (48 + n mod 10)])"

declare digitsOf.simps [simp del]

text \<open>Truthiness of an optional string: absent, \<open>null\<close> and the empty string are falsy.\<close>

definition truthy :: "jsstring option \<Rightarrow> bool" where
  "truthy v = (case v of None \<Rightarrow> False | Some s \<Rightarrow> s \<noteq> [])"

section \<open>Task records and the task map\<close>

text \<open>
  The records are untyped objects in the source. A field that the code only tests for
  truthiness is an option; \<open>parent\<close> is compared with \<open>=== null\<close>, which tells \<open>null\<close> from
  a missing field, so the three cases are kept apart. An \<open>id\<close> that is missing is the empty
  string (both are falsy in \<open>formatTaskLink\<close>). Numbers are integers: an estimate, a
  count and a limit are whole numbers.
\<close>

datatype parent_ref = ParentNull | ParentAbsent | ParentId jsstring

record task =
  id_t :: jsstring
  name :: jsstring
  completed :: bool
  flagged :: bool
  project :: "jsstring option"
  tags :: "jsstring list option"
  dueDate :: "jsstring option"
  estimatedMinutes :: "int option"
  note_t :: "jsstring option"
  parent :: parent_ref
  children :: "jsstring list option"

text \<open>
  The task map is a plain object keyed by task id, and every value is a task record. The
  list holds its own properties in enumeration order (keys are distinct); \<open>Object.values\<close>
  reads the values in that order.
\<close>

type_synonym taskMap = "(jsstring \<times> task) list"

definition Object_values :: "taskMap \<Rightarrow> task list" where
  "Object_values m = map snd m"

text \<open>
  \<open>taskMap[id]\<close> reads an own property first and then the properties that every plain
  object inherits from \<open>Object.prototype\<close>: its methods, \<open>constructor\<close> (the function
  \<open>Object\<close>) and \<open>__proto__\<close> (the prototype itself). Such a value is truthy and has none
  of the task fields; read as a task, all that shows is what the template prints for its
  \<open>name\<close>: the name of the function, or \<open>undefined\<close> for the prototype object.
\<close>

definition nonTask :: "jsstring \<Rightarrow> task" where
  "nonTask n = \<lparr>id_t = [], name = n, completed = False, flagged = False, project = None,
     tags = None, dueDate = None, estimatedMinutes = None, note_t = None,
     parent = ParentAbsent, children = None\<rparr>"

definition prototypeMethods :: "jsstring list" where
  "prototypeMethods =
     map ascii [''hasOwnProperty'', ''isPrototypeOf'', ''propertyIsEnumerable'',
       ''toLocaleString'', ''toString'', ''valueOf'', ''__defineGetter__'',
       ''__defineSetter__'', ''__lookupGetter__'', ''__lookupSetter__'']"

definition inherited :: "jsstring \<Rightarrow> task option" where
  "inherited k =
     (if k = ascii ''constructor'' then Some (nonTask (ascii ''Object''))
      else if k \<in> set prototypeMethods then Some (nonTask k)
      else if k = ascii ''__proto__'' then Some (nonTask (ascii ''undefined''))
      else None)"

definition lookup :: "taskMap \<Rightarrow> jsstring \<Rightarrow> task option" where
  "lookup m k = (case map_of m k of Some task \<Rightarrow> Some task | None \<Rightarrow> inherited k)"

text \<open>
  What the host environment supplies: locale-dependent date rendering
  (\<open>new Date(d).toLocaleDateString()\<close>, and the short \<open>zh-CN\<close> month/day form), the JSON
  parser, the message of the \<open>TypeError\<close> raised by reading a property of \<open>null\<close>, the
  message of the \<open>RangeError\<close> raised when the call stack is exhausted, and the floating-point
  results for numbers outside the safe-integer range (their string and their quotient).
\<close>

record response =
  success :: bool
  error :: "jsstring option"
  taskMap :: "taskMap option"
  count :: "int option"

datatype jsdata = JObject response | JNull | JPrimitive

record host =
  toLocaleDateString :: "jsstring \<Rightarrow> jsstring"
  toLocaleDateString_zhCN :: "jsstring \<Rightarrow> jsstring"
  JSON_parse :: "jsstring \<Rightarrow> jsdata option"
  nullPropertyMessage :: jsstring
  rangeErrorMessage :: jsstring
  Number_toString :: "int \<Rightarrow> jsstring"
  Math_floor_quotient :: "int \<Rightarrow> int \<Rightarrow> int"

section \<open>Numbers\<close>

text \<open>
  A JavaScript number is a double. On the safe integers (magnitude at most \<open>2^53 - 1\<close>) its
  string is the decimal numeral and \<open>Math.floor(a / 60)\<close> is the integer quotient; beyond
  them the string has rounded digits (exponent notation from \<open>1e21\<close>) and the quotient is
  rounded before \<open>Math.floor\<close> sees it, so both are left to the host.
\<close>

definition safeInteger :: "int \<Rightarrow> bool" where
  "safeInteger k \<longleftrightarrow> \<bar>k\<bar> \<le> 9007199254740991"

definition numberToString :: "host \<Rightarrow> int \<Rightarrow> jsstring" where
  "numberToString h k =
     (if safeInteger k then (if k < 0 then 0x2D # digitsOf (nat (- k)) else digitsOf (nat k))
      else Number_toString h k)"

text \<open>The remainder operator \<open>%\<close> on integers: exact, and the sign follows the dividend.\<close>

definition jsRem :: "int \<Rightarrow> int \<Rightarrow> int" where
  "jsRem a b = sgn a * (\<bar>a\<bar> mod \<bar>b\<bar>)"

text \<open>\<open>Math.floor(a / b)\<close> for \<open>b > 0\<close>.\<close>

definition Math_floor_div :: "host \<Rightarrow> int \<Rightarrow> int \<Rightarrow> int" where
  "Math_floor_div h a b = (if safeInteger a then a div b else Math_floor_quotient h a b)"

section \<open>Field formatters\<close>

definition formatTaskLink :: "jsstring \<Rightarrow> jsstring" where
  "formatTaskLink taskId =
     (if taskId = [] then []
      else ascii ''['' @ [0x958B, 0x304F] @ ascii ''](omnifocus:///task/'' @ taskId @ ascii '')'')"

definition str_done :: jsstring where
  "str_done = ascii ''~~ ['' @ [0x5B8C, 0x6210] @ ascii '']''"

definition str_important :: jsstring where
  "str_important = ascii ''['' @ [0x91CD, 0x8981] @ ascii '']''"

definition formatTaskName :: "task \<Rightarrow> jsstring" where
  "formatTaskName task =
     (let name0 = ascii ''**'' @ name task @ ascii ''**'' in
      if completed task then ascii ''~~'' @ name0 @ str_done
      else if flagged task then str_important @ ascii '' '' @ name0
      else name0)"

definition lbl_project :: jsstring where
  "lbl_project = [0x9879, 0x76EE] @ ascii '': ''"

definition lbl_tags :: jsstring where
  "lbl_tags = [0x6807, 0x7B7E] @ ascii '': ''"

definition lbl_due :: jsstring where
  "lbl_due = [0x622A, 0x6B62] @ ascii '': ''"

definition lbl_estimate :: jsstring where
  "lbl_estimate = [0x9884, 0x4F30] @ ascii '': ''"

definition lbl_note :: jsstring where
  "lbl_note = [0x5907, 0x6CE8] @ ascii '': ''"

definition ellipsis :: jsstring where
  "ellipsis = ascii ''...''"

text \<open>The five \<open>if\<close> blocks of \<open>formatTaskDetails\<close>, each giving the lines it pushes.\<close>

definition details_project :: "task \<Rightarrow> jsstring list" where
  "details_project task =
     (case project task of
        Some p \<Rightarrow> if p \<noteq> [] then [lbl_project @ p] else []
      | None \<Rightarrow> [])"

definition details_tags :: "task \<Rightarrow> jsstring list" where
  "details_tags task =
     (case tags task of
        Some ts \<Rightarrow> if length ts > 0 then [lbl_tags @ join (ascii '', '') ts] else []
      | None \<Rightarrow> [])"

definition details_dueDate :: "host \<Rightarrow> task \<Rightarrow> jsstring list" where
  "details_dueDate h task =
     (case dueDate task of
        Some d \<Rightarrow> if d \<noteq> [] then [lbl_due @ toLocaleDateString h d] else []
      | None \<Rightarrow> [])"

definition details_estimate :: "host \<Rightarrow> task \<Rightarrow> jsstring list" where
  "details_estimate h task =
     (case estimatedMinutes task of
        Some m \<Rightarrow>
          if m \<noteq> 0 then
            (let hours = Math_floor_div h m 60; minutes = jsRem m 60 in
             if hours > 0 then
               [lbl_estimate @ numberToString h hours @ ascii ''h'' @
                  (if minutes > 0 then ascii '' '' @ numberToString h minutes @ ascii ''m'' else [])]
             else [lbl_estimate @ numberToString h minutes @ ascii ''m''])
          else []
      | None \<Rightarrow> [])"

definition details_note :: "task \<Rightarrow> jsstring list" where
  "details_note task =
     (case note_t task of
        Some n \<Rightarrow>
          if n \<noteq> [] \<and> trim n \<noteq> [] then
            (let notePreview = substring (trim n) 0 60 in
             [lbl_note @ notePreview @ (if length n > 60 then ellipsis else [])])
          else []
      | None \<Rightarrow> [])"

definition formatTaskDetails :: "host \<Rightarrow> task \<Rightarrow> jsstring list" where
  "formatTaskDetails h task =
     details_project task @ details_tags task @ details_dueDate h task @
     details_estimate h task @ details_note task"

section \<open>Tree renderer\<close>

text \<open>
  \<open>Array.prototype.forEach\<close> with the element index, threading the state that the callback
  updates. The callback may fail to return, and then so does the loop.
\<close>

fun forEach :: "('a \<Rightarrow> nat \<Rightarrow> 's \<Rightarrow> 's option) \<Rightarrow> 'a list \<Rightarrow> nat \<Rightarrow> 's \<Rightarrow> 's option" where
  "forEach f [] i s = Some s"
| "forEach f (x # xs) i s = Option.bind (f x i s) (forEach f xs (Suc i))"

lemma forEach_mono [partial_function_mono]:
  assumes "\<And>x i s. mono_option (\<lambda>f. g f x i s)"
  shows "mono_option (\<lambda>f. forEach (g f) xs i s)"
  using assms by (induction xs arbitrary: i s) (auto intro!: partial_function_mono)

definition conn_last :: jsstring where
  "conn_last = [0x2514, 0x2500, 0x0020]"

definition conn_mid :: jsstring where
  "conn_mid = [0x251C, 0x2500, 0x0020]"

definition pad_blank :: jsstring where
  "pad_blank = ascii ''   ''"

definition pad_bar :: jsstring where
  "pad_bar = [0x2502, 0x0020, 0x0020]"

text \<open>
  \<open>task.children.map(id => taskMap[id]).filter(child => child && (!hideCompleted ||
  !child.completed))\<close>.
\<close>

definition childTasks :: "taskMap \<Rightarrow> bool \<Rightarrow> jsstring list \<Rightarrow> task list" where
  "childTasks m hideCompleted ids =
     concat (map (\<lambda>v. case v of None \<Rightarrow> [] | Some child \<Rightarrow> [child])
       (filter (\<lambda>v. case v of None \<Rightarrow> False
                               | Some child \<Rightarrow> \<not> hideCompleted \<or> \<not> completed child)
          (map (lookup m) ids)))"

text \<open>The lines pushed for the node itself: its own line, then its detail lines.\<close>

definition nodeLines :: "host \<Rightarrow> task \<Rightarrow> jsstring \<Rightarrow> bool \<Rightarrow> jsstring list" where
  "nodeLines h task prefix isLast =
     (let currentPrefix = prefix @ (if isLast then conn_last else conn_mid);
          taskLine = currentPrefix @ formatTaskName task @ ascii '' '' @ formatTaskLink (id_t task);
          detailPrefix = prefix @ (if isLast then pad_blank else pad_bar);
          taskDetails = formatTaskDetails h task
      in taskLine # map (\<lambda>detail. detailPrefix @ detail) taskDetails)"

text \<open>
  The recursion of \<open>renderTaskTree\<close> follows the \<open>children\<close> links and nothing bounds it, so
  the function is partial: \<open>None\<close> is a call that does not return.
\<close>

partial_function (option) renderTaskTree ::
  "host \<Rightarrow> task \<Rightarrow> taskMap \<Rightarrow> bool \<Rightarrow> jsstring \<Rightarrow> bool \<Rightarrow> jsstring list \<Rightarrow> jsstring list option"
where
  "renderTaskTree h task m hideCompleted prefix isLast lines =
     (let lines1 = lines @ nodeLines h task prefix isLast in
      case children task of
        Some ids \<Rightarrow>
          if length ids > 0 then
            (let cs = childTasks m hideCompleted ids;
                 childPrefix = prefix @ (if isLast then pad_blank else pad_bar)
             in forEach (\<lambda>childTask index ls.
                    renderTaskTree h childTask m hideCompleted childPrefix
                      (index = length cs - 1) ls) cs 0 lines1)
          else Some lines1
      | None \<Rightarrow> Some lines1)"

definition hdr_title :: jsstring where
  "hdr_title = ascii ''**'' @ [0x900F, 0x89C6, 0x4EFB, 0x52A1, 0xFF1A]"

definition str_none :: jsstring where
  "str_none = [0x6682, 0x65E0]"

definition str_unfinished :: jsstring where
  "str_unfinished = [0x672A, 0x5B8C, 0x6210]"

definition rootTasks :: "taskMap \<Rightarrow> task list" where
  "rootTasks m = filter (\<lambda>task. parent task = ParentNull) (Object_values m)"

definition filteredRootTasks :: "taskMap \<Rightarrow> bool \<Rightarrow> task list" where
  "filteredRootTasks m hideCompleted =
     (if hideCompleted then filter (\<lambda>task. \<not> completed task) (rootTasks m) else rootTasks m)"

definition hierarchyHeader :: "jsstring \<Rightarrow> jsstring" where
  "hierarchyHeader perspectiveName =
     hdr_title @ perspectiveName @ ascii ''** ('' @ [0x5C42, 0x7EA7, 0x89C6, 0x56FE] @
     ascii '')'' @ [0x0A, 0x0A]"

definition taskTreeLines :: "host \<Rightarrow> taskMap \<Rightarrow> bool \<Rightarrow> jsstring list option" where
  "taskTreeLines h m hideCompleted =
     (let roots = filteredRootTasks m hideCompleted in
      forEach (\<lambda>rootTask index ls.
          renderTaskTree h rootTask m hideCompleted [] (index = length roots - 1) ls)
        roots 0 [])"

definition formatHierarchicalTasks :: "host \<Rightarrow> jsstring \<Rightarrow> taskMap \<Rightarrow> bool \<Rightarrow> jsstring option" where
  "formatHierarchicalTasks h perspectiveName m hideCompleted =
     (let header = hierarchyHeader perspectiveName in
      if length (filteredRootTasks m hideCompleted) = 0 then
        Some (header @ str_none @ (if hideCompleted then str_unfinished else []) @
              [0x6839, 0x4EFB, 0x52A1, 0x3002])
      else
        map_option (\<lambda>ls. header @ join [0x0A] ls) (taskTreeLines h m hideCompleted))"

section \<open>Flat renderer\<close>

text \<open>The limit shared by the flat and the grouped renderer: \<open>tasks.slice(0, limit)\<close> when
  \<open>limit && limit > 0\<close>.\<close>

definition displayTasks :: "task list \<Rightarrow> int \<Rightarrow> task list" where
  "displayTasks tasks limit =
     (if limit \<noteq> 0 \<and> limit > 0 then take (nat limit) tasks else tasks)"

text \<open>\<open>totalCount > displayTasks.length\<close>; a missing \<open>count\<close> is \<open>undefined\<close> and compares false.\<close>

definition exceeds :: "int option \<Rightarrow> nat \<Rightarrow> bool" where
  "exceeds totalCount n = (case totalCount of None \<Rightarrow> False | Some c \<Rightarrow> c > int n)"

text \<open>\<open>${totalCount}\<close> inside a template literal.\<close>

definition countToString :: "host \<Rightarrow> int option \<Rightarrow> jsstring" where
  "countToString h totalCount =
     (case totalCount of None \<Rightarrow> ascii ''undefined'' | Some c \<Rightarrow> numberToString h c)"

definition nl_indent :: jsstring where
  "nl_indent = 0x0A # ascii ''   ''"

definition str_tasks :: jsstring where
  "str_tasks = [0x4E2A, 0x4EFB, 0x52A1]"

definition str_found :: jsstring where
  "str_found = [0x5171, 0x627E, 0x5230]"

definition str_shown :: jsstring where
  "str_shown = [0x4E2A, 0x4EFB, 0x52A1, 0xFF0C, 0x663E, 0x793A]"

definition flat_project :: "task \<Rightarrow> jsstring" where
  "flat_project task =
     (case project task of
        Some p \<Rightarrow> if p \<noteq> [] then nl_indent @ lbl_project @ p else []
      | None \<Rightarrow> [])"

definition flat_tags :: "task \<Rightarrow> jsstring" where
  "flat_tags task =
     (case tags task of
        Some ts \<Rightarrow> if length ts > 0 then nl_indent @ lbl_tags @ join (ascii '', '') ts else []
      | None \<Rightarrow> [])"

definition flat_dueDate :: "host \<Rightarrow> task \<Rightarrow> jsstring" where
  "flat_dueDate h task =
     (case dueDate task of
        Some d \<Rightarrow> if d \<noteq> [] then nl_indent @ lbl_due @ toLocaleDateString h d else []
      | None \<Rightarrow> [])"

definition flat_flagged :: "task \<Rightarrow> jsstring" where
  "flat_flagged task = (if flagged task then nl_indent @ str_important else [])"

definition flat_estimate :: "host \<Rightarrow> task \<Rightarrow> jsstring" where
  "flat_estimate h task =
     (case estimatedMinutes task of
        Some m \<Rightarrow>
          if m \<noteq> 0 then
            (let hours = Math_floor_div h m 60; minutes = jsRem m 60 in
             if hours > 0 then
               nl_indent @ lbl_estimate @ numberToString h hours @ ascii ''h'' @
                 (if minutes > 0 then ascii '' '' @ numberToString h minutes @ ascii ''m'' else [])
             else nl_indent @ lbl_estimate @ numberToString h minutes @ ascii ''m'')
          else []
      | None \<Rightarrow> [])"

definition flat_note :: "task \<Rightarrow> jsstring" where
  "flat_note task =
     (case note_t task of
        Some n \<Rightarrow>
          if n \<noteq> [] \<and> trim n \<noteq> [] then
            (let notePreview = substring (trim n) 0 100 in
             nl_indent @ lbl_note @ notePreview @ (if length n > 100 then ellipsis else []))
          else []
      | None \<Rightarrow> [])"

text \<open>The callback of \<open>displayTasks.map\<close>: one numbered block per task.\<close>

definition flatTaskText :: "host \<Rightarrow> task \<Rightarrow> nat \<Rightarrow> jsstring" where
  "flatTaskText h task index =
     numberToString h (int index + 1) @ ascii ''. **'' @ name task @ ascii ''**'' @
     flat_project task @ flat_tags task @ flat_dueDate h task @ flat_flagged task @
     flat_estimate h task @ flat_note task @
     nl_indent @ formatTaskLink (id_t task)"

definition flatTaskList :: "host \<Rightarrow> task list \<Rightarrow> jsstring" where
  "flatTaskList h ts =
     join [0x0A, 0x0A] (map (\<lambda>(task, index). flatTaskText h task index) (zip ts [0..<length ts]))"

definition flatHeader :: "host \<Rightarrow> jsstring \<Rightarrow> nat \<Rightarrow> jsstring" where
  "flatHeader h perspectiveName n =
     hdr_title @ perspectiveName @ ascii ''** ('' @ numberToString h (int n) @ str_tasks @
     ascii '')'' @ [0x0A, 0x0A]"

definition flatFooter :: "host \<Rightarrow> int option \<Rightarrow> nat \<Rightarrow> jsstring" where
  "flatFooter h totalCount n =
     (if exceeds totalCount n then
        [0x0A, 0x0A, 0x63D0, 0x793A] @ ascii '': '' @ str_found @ ascii '' '' @
        countToString h totalCount @ ascii '' '' @ str_shown @ ascii '' '' @
        numberToString h (int n) @ ascii '' '' @ [0x4E2A]
      else [])"

definition formatFlatTasks :: "host \<Rightarrow> jsstring \<Rightarrow> task list \<Rightarrow> int \<Rightarrow> int option \<Rightarrow> jsstring" where
  "formatFlatTasks h perspectiveName tasks limit totalCount =
     (let shown = displayTasks tasks limit;
          taskList = flatTaskList h shown;
          header = flatHeader h perspectiveName (length shown);
          footer = flatFooter h totalCount (length shown)
      in header @ taskList @ footer)"

section \<open>Grouped renderer\<close>

text \<open>
  The \<open>Map\<close> from project name to bucket, as the list of its entries in insertion order.
  \<open>Map_set\<close> of a new key appends an entry; \<open>Map_push\<close> is \<open>get(key)!.push(x)\<close>.
\<close>

type_synonym groups = "(jsstring \<times> task list) list"

definition Map_has :: "groups \<Rightarrow> jsstring \<Rightarrow> bool" where
  "Map_has g k = (map_of g k \<noteq> None)"

definition Map_set :: "groups \<Rightarrow> jsstring \<Rightarrow> task list \<Rightarrow> groups" where
  "Map_set g k v =
     (if Map_has g k then map (\<lambda>(k', v'). if k' = k then (k', v) else (k', v')) g
      else g @ [(k, v)])"

definition Map_push :: "groups \<Rightarrow> jsstring \<Rightarrow> task \<Rightarrow> groups" where
  "Map_push g k x = map (\<lambda>(k', v'). if k' = k then (k', v' @ [x]) else (k', v')) g"

text \<open>One round of the bucketing loop, on the pair (\<open>projectGroups\<close>, \<open>noProjectTasks\<close>).\<close>

definition groupStep :: "groups \<times> task list \<Rightarrow> task \<Rightarrow> groups \<times> task list" where
  "groupStep st task =
     (case st of (projectGroups, noProjectTasks) \<Rightarrow>
        if truthy (project task) then
          (let projectName = the (project task);
               g1 = (if \<not> Map_has projectGroups projectName
                     then Map_set projectGroups projectName [] else projectGroups)
           in (Map_push g1 projectName task, noProjectTasks))
        else (projectGroups, noProjectTasks @ [task]))"

definition groupTasks :: "task list \<Rightarrow> groups \<times> task list" where
  "groupTasks ts = foldl groupStep ([], []) ts"

text \<open>The optional fragments that \<open>formatTaskForGroup\<close> appends to the task line.\<close>

definition group_tags :: "task \<Rightarrow> jsstring" where
  "group_tags task =
     (case tags task of
        Some ts \<Rightarrow> if length ts > 0
                   then ascii '' `'' @ join (ascii ''` `'') ts @ ascii ''`'' else []
      | None \<Rightarrow> [])"

definition group_dueDate :: "host \<Rightarrow> task \<Rightarrow> jsstring" where
  "group_dueDate h task =
     (case dueDate task of
        Some d \<Rightarrow> if d \<noteq> []
                  then ascii '' '' @ [0xD83D, 0xDCC5] @ ascii '' '' @ toLocaleDateString_zhCN h d
                  else []
      | None \<Rightarrow> [])"

definition lbl_duration :: jsstring where
  "lbl_duration = ascii '' '' @ [0x23F1, 0xFE0F] @ ascii '' ''"

definition group_estimate :: "host \<Rightarrow> task \<Rightarrow> jsstring" where
  "group_estimate h task =
     (case estimatedMinutes task of
        Some m \<Rightarrow>
          if m \<noteq> 0 then
            (let hours = Math_floor_div h m 60; minutes = jsRem m 60 in
             if hours > 0 then
               lbl_duration @ numberToString h hours @ ascii ''h'' @
                 (if minutes > 0 then numberToString h minutes @ ascii ''m'' else [])
             else lbl_duration @ numberToString h minutes @ ascii ''m'')
          else []
      | None \<Rightarrow> [])"

definition formatTaskForGroup :: "host \<Rightarrow> task \<Rightarrow> jsstring" where
  "formatTaskForGroup h task =
     (let statusIcon = (if completed task then [0x2705]
                        else if flagged task then [0xD83D, 0xDD36] else [0x25CB])
      in ascii ''- '' @ statusIcon @ ascii '' **'' @ name task @ ascii ''**'' @
         group_tags task @ group_dueDate h task @ group_estimate h task @
         ascii '' '' @ formatTaskLink (id_t task))"

definition projectSection :: "host \<Rightarrow> jsstring \<times> task list \<Rightarrow> jsstring list" where
  "projectSection h entry =
     (case entry of (projectName, projectTasks) \<Rightarrow>
        [0x0A # ascii ''### '' @ [0xD83D, 0xDCC1] @ ascii '' '' @ projectName, []] @
        map (formatTaskForGroup h) projectTasks)"

definition inboxSection :: "host \<Rightarrow> task list \<Rightarrow> jsstring list" where
  "inboxSection h noProjectTasks =
     (if length noProjectTasks > 0 then
        [0x0A # ascii ''### '' @ [0xD83D, 0xDCE5] @ ascii '' '' @ [0x6536, 0x4EF6, 0x7BB1], []] @
        map (formatTaskForGroup h) noProjectTasks
      else [])"

definition groupedLines :: "host \<Rightarrow> groups \<times> task list \<Rightarrow> jsstring list" where
  "groupedLines h st =
     (case st of (projectGroups, noProjectTasks) \<Rightarrow>
        concat (map (projectSection h) projectGroups) @ inboxSection h noProjectTasks)"

definition groupedHeader :: "host \<Rightarrow> jsstring \<Rightarrow> nat \<Rightarrow> nat \<Rightarrow> jsstring" where
  "groupedHeader h perspectiveName n groupCount =
     ascii ''## '' @ [0x900F, 0x89C6, 0x4EFB, 0x52A1, 0xFF1A] @ perspectiveName @
     [0x0A, 0x0A] @ ascii ''**'' @ [0x5171] @ ascii '' '' @ numberToString h (int n) @ ascii '' '' @
     [0x4E2A, 0x4EFB, 0x52A1, 0xFF0C] @ numberToString h (int groupCount) @ ascii '' '' @
     [0x4E2A, 0x9879, 0x76EE] @ ascii ''**''"

definition groupedFooter :: "host \<Rightarrow> int option \<Rightarrow> nat \<Rightarrow> jsstring" where
  "groupedFooter h totalCount n =
     (if exceeds totalCount n then
        [0x0A, 0x0A] @ ascii ''---'' @ [0x0A, 0xD83D, 0xDCA1] @ ascii '' *'' @ str_found @
        ascii '' '' @ countToString h totalCount @ ascii '' '' @ str_shown @ ascii '' '' @
        numberToString h (int n) @ ascii '' '' @ [0x4E2A] @ ascii ''*''
      else [])"

definition formatGroupedByProject ::
  "host \<Rightarrow> jsstring \<Rightarrow> task list \<Rightarrow> int \<Rightarrow> int option \<Rightarrow> jsstring" where
  "formatGroupedByProject h perspectiveName tasks limit totalCount =
     (let shown = displayTasks tasks limit;
          st = groupTasks shown;
          lines = groupedLines h st;
          header = groupedHeader h perspectiveName (length shown) (length (fst st));
          footer = groupedFooter h totalCount (length shown)
      in header @ join [0x0A] lines @ footer)"

section \<open>Orchestrator\<close>

record options =
  perspectiveName :: jsstring
  hideCompleted :: "bool option"
  limit :: "int option"
  showHierarchy :: "bool option"
  groupByProject :: "bool option"

text \<open>
  What the awaited call of the script collaborator did: it threw an error with a message,
  or it returned a string, a non-null object, or anything else (given by its \<open>typeof\<close> and
  its string rendering; \<open>null\<close> is \<open>ReturnedOther ''object'' ''null''\<close>).
\<close>

datatype script_result =
    Threw jsstring
  | ReturnedString jsstring
  | ReturnedObject response
  | ReturnedOther jsstring jsstring

definition error_marker :: jsstring where
  "error_marker = 0x274C # ascii '' **'' @ [0x9519, 0x8BEF] @ ascii ''**: ''"

definition msg_empty_name :: jsstring where
  "msg_empty_name = [0x900F, 0x89C6, 0x540D, 0x79F0, 0x4E0D, 0x80FD, 0x4E3A, 0x7A7A]"

definition msg_parse_failed :: jsstring where
  "msg_parse_failed =
     [0x89E3, 0x6790, 0x5B57, 0x7B26, 0x4E32, 0x7ED3, 0x679C, 0x5931, 0x8D25] @ ascii '': ''"

definition msg_invalid_type :: jsstring where
  "msg_invalid_type =
     [0x811A, 0x672C, 0x6267, 0x884C, 0x8FD4, 0x56DE, 0x4E86, 0x65E0, 0x6548, 0x7684,
      0x7ED3, 0x679C, 0x7C7B, 0x578B] @ ascii '': ''"

definition msg_value :: jsstring where
  "msg_value = ascii '', '' @ [0x503C] @ ascii '': ''"

definition msg_unknown :: jsstring where
  "msg_unknown = ascii ''Unknown error occurred''"

text \<open>
  Inside the \<open>try\<close> block a step either throws an \<open>Error\<close> (\<open>Inl\<close> of its message) or goes on
  with a value (\<open>Inr\<close>). First the result of the script is normalised into \<open>data\<close>.
\<close>

definition normalize :: "host \<Rightarrow> script_result \<Rightarrow> jsstring + jsdata" where
  "normalize h result =
     (case result of
        Threw e \<Rightarrow> Inl e
      | ReturnedString s \<Rightarrow>
          (case JSON_parse h s of
             None \<Rightarrow> Inl (msg_parse_failed @ s)
           | Some d \<Rightarrow> Inr d)
      | ReturnedObject r \<Rightarrow> Inr (JObject r)
      | ReturnedOther ty v \<Rightarrow> Inl (msg_invalid_type @ ty @ msg_value @ v))"

text \<open>
  \<open>if (!data.success) throw new Error(data.error || 'Unknown error occurred')\<close>. Reading
  \<open>success\<close> of a parsed \<open>null\<close> raises a \<open>TypeError\<close>; a parsed number, boolean or string has
  no such property.
\<close>

definition checkSuccess :: "host \<Rightarrow> jsdata \<Rightarrow> jsstring + response" where
  "checkSuccess h data =
     (case data of
        JNull \<Rightarrow> Inl (nullPropertyMessage h)
      | JPrimitive \<Rightarrow> Inl msg_unknown
      | JObject r \<Rightarrow>
          if \<not> success r then
            Inl (case error r of
                   Some e \<Rightarrow> if e \<noteq> [] then e else msg_unknown
                 | None \<Rightarrow> msg_unknown)
          else Inr r)"

definition emptyMessage :: "jsstring \<Rightarrow> bool \<Rightarrow> jsstring" where
  "emptyMessage pname hide =
     hdr_title @ pname @ ascii ''**'' @ [0x0A, 0x0A] @ str_none @
     (if hide then str_unfinished else []) @ [0x4EFB, 0x52A1, 0x3002]"

text \<open>\<open>data.taskMap || {}\<close>, and the completed-task filter applied to its values.\<close>

definition taskMapOf :: "response \<Rightarrow> taskMap" where
  "taskMapOf data = (case taskMap data of Some tm \<Rightarrow> tm | None \<Rightarrow> [])"

definition filteredTasks :: "taskMap \<Rightarrow> bool \<Rightarrow> task list" where
  "filteredTasks m hide =
     (let allTasks = Object_values m in
      if hide then filter (\<lambda>task. \<not> completed task) allTasks else allTasks)"

text \<open>
  The rest of the \<open>try\<close> block, from the extraction of the task map to the dispatch; \<open>None\<close>
  when the tree renderer does not return.
\<close>

definition renderData ::
  "host \<Rightarrow> jsstring \<Rightarrow> bool \<Rightarrow> int \<Rightarrow> bool \<Rightarrow> bool \<Rightarrow> response \<Rightarrow> jsstring option" where
  "renderData h pname hide lim hierarchy grouping data =
     (let m = taskMapOf data;
          shown = filteredTasks m hide
      in if length shown = 0 then Some (emptyMessage pname hide)
         else if hierarchy then formatHierarchicalTasks h pname m hide
         else if grouping then Some (formatGroupedByProject h pname shown lim (count data))
         else Some (formatFlatTasks h pname shown lim (count data)))"

text \<open>
  The \<open>try\<close> block: it throws an error (\<open>Inl\<close> of its message) or returns a string (\<open>Inr\<close>).
  A render that never comes back exhausts the call stack, and the \<open>RangeError\<close> that the
  engine raises then is an error thrown inside the block like any other.
\<close>

definition tryBlock ::
  "host \<Rightarrow> jsstring \<Rightarrow> bool \<Rightarrow> int \<Rightarrow> bool \<Rightarrow> bool \<Rightarrow> script_result \<Rightarrow> jsstring + jsstring"
where
  "tryBlock h pname hide lim hierarchy grouping result =
     (case normalize h result of
        Inl e \<Rightarrow> Inl e
      | Inr data \<Rightarrow>
          (case checkSuccess h data of
             Inl e \<Rightarrow> Inl e
           | Inr r \<Rightarrow>
               (case renderData h pname hide lim hierarchy grouping r of
                  None \<Rightarrow> Inl (rangeErrorMessage h)
                | Some out \<Rightarrow> Inr out)))"

text \<open>The destructuring of the options, with the default of each.\<close>

definition opt_hideCompleted :: "options \<Rightarrow> bool" where
  "opt_hideCompleted opts = (case hideCompleted opts of Some b \<Rightarrow> b | None \<Rightarrow> True)"

definition opt_limit :: "options \<Rightarrow> int" where
  "opt_limit opts = (case limit opts of Some n \<Rightarrow> n | None \<Rightarrow> 1000)"

definition opt_showHierarchy :: "options \<Rightarrow> bool" where
  "opt_showHierarchy opts = (case showHierarchy opts of Some b \<Rightarrow> b | None \<Rightarrow> False)"

definition opt_groupByProject :: "options \<Rightarrow> bool" where
  "opt_groupByProject opts = (case groupByProject opts of Some b \<Rightarrow> b | None \<Rightarrow> True)"

text \<open>
  The whole function: the check of the name, the \<open>try\<close> block, and the \<open>catch\<close> clause that
  turns a thrown error into the marked message.
\<close>

definition getCustomPerspectiveTasks :: "host \<Rightarrow> options \<Rightarrow> script_result \<Rightarrow> jsstring" where
  "getCustomPerspectiveTasks h opts result =
     (let pname = perspectiveName opts;
          hide = opt_hideCompleted opts;
          lim = opt_limit opts;
          hierarchy = opt_showHierarchy opts;
          grouping = opt_groupByProject opts
      in if pname = [] then error_marker @ msg_empty_name
         else
           (case tryBlock h pname hide lim hierarchy grouping result of
              Inl e \<Rightarrow> error_marker @ e
            | Inr out \<Rightarrow> out))"

section \<open>Derived notions\<close>

text \<open>
  The child list that \<open>renderTaskTree\<close> walks for a node (empty when \<open>children\<close> is missing
  or empty), the links it follows between the records of a map, and the prefix it hands to
  the children of a node.
\<close>

definition childrenOf :: "taskMap \<Rightarrow> bool \<Rightarrow> task \<Rightarrow> task list" where
  "childrenOf m hide task =
     (case children task of Some ids \<Rightarrow> childTasks m hide ids | None \<Rightarrow> [])"

definition childLinks :: "taskMap \<Rightarrow> bool \<Rightarrow> (task \<times> task) list" where
  "childLinks m hide =
     concat (map (\<lambda>task. map (\<lambda>child. (child, task)) (childrenOf m hide task))
       (Object_values m))"

definition childPrefix :: "jsstring \<Rightarrow> bool \<Rightarrow> jsstring" where
  "childPrefix prefix isLast = prefix @ (if isLast then pad_blank else pad_bar)"

text \<open>
  The grouping as the specification words it: the project names in first-seen order, each
  with the tasks of that project in their original order, and the tasks without a project.
\<close>

definition firstSeen :: "'a list \<Rightarrow> 'a list" where
  "firstSeen xs = rev (remdups (rev xs))"

definition projectNames :: "task list \<Rightarrow> jsstring list" where
  "projectNames ts =
     concat (map (\<lambda>t. case project t of Some p \<Rightarrow> if p \<noteq> [] then [p] else [] | None \<Rightarrow> []) ts)"

definition bucketsSpec :: "task list \<Rightarrow> groups" where
  "bucketsSpec ts =
     map (\<lambda>p. (p, filter (\<lambda>t. project t = Some p) ts)) (firstSeen (projectNames ts))"

definition inboxSpec :: "task list \<Rightarrow> task list" where
  "inboxSpec ts = filter (\<lambda>t. \<not> truthy (project t)) ts"

section \<open>Example inputs\<close>

text \<open>A task with the given id and name, every optional field missing and \<open>parent\<close> null.\<close>

definition blankTask :: "jsstring \<Rightarrow> jsstring \<Rightarrow> task" where
  "blankTask i n = \<lparr>id_t = i, name = n, completed = False, flagged = False, project = None,
     tags = None, dueDate = None, estimatedMinutes = None, note_t = None,
     parent = ParentNull, children = None\<rparr>"

text \<open>
  A host whose parser knows three payloads: \<open>null\<close>, the number \<open>5\<close>, and \<open>{}\<close>, an object
  without a \<open>success\<close> field.
\<close>

definition host0 :: host where
  "host0 = \<lparr>toLocaleDateString = (\<lambda>d. d), toLocaleDateString_zhCN = (\<lambda>d. d),
     JSON_parse = (\<lambda>s. if s = ascii ''null'' then Some JNull
                        else if s = ascii ''5'' then Some JPrimitive
                        else if s = ascii ''{}'' then
                          Some (JObject \<lparr>success = False, error = None, taskMap = None,
                                          count = None\<rparr>)
                        else None),
     nullPropertyMessage = ascii ''Cannot read properties of null'',
     rangeErrorMessage = ascii ''Maximum call stack size exceeded'',
     Number_toString = (\<lambda>k. ascii ''1e+21''),
     Math_floor_quotient = (\<lambda>a b. a div b)\<rparr>"

text \<open>A root \<open>A\<close> with the single child \<open>B\<close>; and the same map with \<open>B\<close> pointing back to \<open>A\<close>.\<close>

definition treeA :: task where
  "treeA = (blankTask (ascii ''A'') (ascii ''A'')) \<lparr>children := Some [ascii ''B'']\<rparr>"

definition treeB :: task where
  "treeB = (blankTask (ascii ''B'') (ascii ''B'')) \<lparr>parent := ParentId (ascii ''A'')\<rparr>"

definition treeMap :: taskMap where
  "treeMap = [(ascii ''A'', treeA), (ascii ''B'', treeB)]"

definition cycB :: task where
  "cycB = treeB \<lparr>children := Some [ascii ''A'']\<rparr>"

definition cyclicMap :: taskMap where
  "cyclicMap = [(ascii ''A'', treeA), (ascii ''B'', cycB)]"

text \<open>
  A single record whose \<open>parent\<close> field is missing; a map where \<open>B\<close> is listed by \<open>A\<close> and
  has a null \<open>parent\<close> itself; and a node that lists a missing id, \<open>B\<close>, and a completed \<open>C\<close>.
\<close>

definition orphanTask :: task where
  "orphanTask = (blankTask (ascii ''A'') (ascii ''A'')) \<lparr>parent := ParentAbsent\<rparr>"

definition orphanMap :: taskMap where
  "orphanMap = [(ascii ''A'', orphanTask)]"

definition sharedB :: task where
  "sharedB = blankTask (ascii ''B'') (ascii ''B'')"

definition sharedMap :: taskMap where
  "sharedMap = [(ascii ''A'', treeA), (ascii ''B'', sharedB)]"

definition mixedA :: task where
  "mixedA = (blankTask (ascii ''A'') (ascii ''A''))
     \<lparr>children := Some [ascii ''X'', ascii ''B'', ascii ''C'']\<rparr>"

definition doneC :: task where
  "doneC = (blankTask (ascii ''C'') (ascii ''C''))
     \<lparr>completed := True, parent := ParentId (ascii ''A'')\<rparr>"

definition mixedMap :: taskMap where
  "mixedMap = [(ascii ''A'', mixedA), (ascii ''B'', treeB), (ascii ''C'', doneC)]"

text \<open>A root whose only child id is \<open>constructor\<close>, which is not a key of the map.\<close>

definition ctorA :: task where
  "ctorA = (blankTask (ascii ''A'') (ascii ''A'')) \<lparr>children := Some [ascii ''constructor'']\<rparr>"

definition ctorMap :: taskMap where
  "ctorMap = [(ascii ''A'', ctorA)]"

text \<open>
  Options that only name the perspective; successful results carrying \<open>treeMap\<close> and
  \<open>cyclicMap\<close>; and a failed result with a message.
\<close>

definition plainOptions :: options where
  "plainOptions = \<lparr>perspectiveName = ascii ''P'', hideCompleted = None, limit = None,
     showHierarchy = None, groupByProject = None\<rparr>"

definition okResponse :: response where
  "okResponse = \<lparr>success = True, error = None, taskMap = Some treeMap, count = Some 2\<rparr>"



text \<open>Three tasks: two of project \<open>Alpha\<close> around one without a project.\<close>

definition alpha1 :: task where
  "alpha1 = (blankTask (ascii ''1'') (ascii ''one'')) \<lparr>project := Some (ascii ''Alpha'')\<rparr>"

definition loose2 :: task where
  "loose2 = blankTask (ascii ''2'') (ascii ''two'')"

definition alpha3 :: task where
  "alpha3 = (blankTask (ascii ''3'') (ascii ''three'')) \<lparr>project := Some (ascii ''Alpha'')\<rparr>"

section \<open>Properties\<close>

subsection \<open>The recursion of the tree renderer\<close>

lemma childTasks_Nil [simp]: "childTasks m hide [] = []"
  by (simp add: childTasks_def)

lemma renderTaskTree_body:
  "(let lines1 = ls @ nodeLines h t p l in
      case children t of
        Some ids \<Rightarrow>
          if length ids > 0 then
            (let cs = childTasks m hide ids;
                 childPrefix = p @ (if l then pad_blank else pad_bar)
             in forEach (\<lambda>childTask index a. F h childTask m hide childPrefix
                      (index = length cs - 1) a) cs 0 lines1)
          else Some lines1
      | None \<Rightarrow> Some lines1) =
     forEach (\<lambda>c i a. F h c m hide (childPrefix p l) (i = length (childrenOf m hide t) - 1) a)
       (childrenOf m hide t) 0 (ls @ nodeLines h t p l)"
  by (simp add: childrenOf_def childPrefix_def Let_def split: option.splits)

lemma renderTaskTree_unfold:
  "renderTaskTree h t m hide p l ls =
     forEach (\<lambda>c i a. renderTaskTree h c m hide (childPrefix p l)
                 (i = length (childrenOf m hide t) - 1) a)
       (childrenOf m hide t) 0 (ls @ nodeLines h t p l)"
  by (subst renderTaskTree.simps) (rule renderTaskTree_body)

lemma forEach_blocks:
  assumes "forEach f xs i s = Some r"
    and "\<And>x j a b. f x j a = Some b \<Longrightarrow> \<exists>blk. b = a @ blk \<and> (\<forall>a'. g x j a' = Some (a' @ blk))"
  shows "\<exists>blocks. list_all2 (\<lambda>(x, j) blk. g x j [] = Some blk) (zip xs [i..<i + length xs]) blocks
           \<and> r = s @ concat blocks \<and> (\<forall>s'. forEach g xs i s' = Some (s' @ concat blocks))"
  using assms(1)
proof (induction xs arbitrary: i s)
  case Nil
  then show ?case by simp
next
  case (Cons x xs)
  from Cons.prems obtain b where b: "f x i s = Some b" and rest: "forEach f xs (Suc i) b = Some r"
    by (auto simp: Option.bind_eq_Some_conv)
  from assms(2) [OF b] obtain blk where blk: "b = s @ blk" "\<And>a'. g x i a' = Some (a' @ blk)"
    by blast
  from Cons.IH [OF rest] obtain blocks where
    bs: "list_all2 (\<lambda>(x, j) blk. g x j [] = Some blk) (zip xs [Suc i..<Suc i + length xs]) blocks"
      "r = b @ concat blocks" "\<And>s'. forEach g xs (Suc i) s' = Some (s' @ concat blocks)"
    by blast
  have up: "[i..<i + length (x # xs)] = i # [Suc i..<Suc i + length xs]"
    by (subst upt_conv_Cons) simp_all
  have "list_all2 (\<lambda>(x, j) blk. g x j [] = Some blk) (zip (x # xs) [i..<i + length (x # xs)]) (blk # blocks)"
    unfolding up using bs(1) blk(2) [of "[]"] by simp
  moreover have "r = s @ concat (blk # blocks)"
    using bs(2) blk(1) by simp
  moreover have "\<forall>s'. forEach g (x # xs) i s' = Some (s' @ concat (blk # blocks))"
    using blk(2) bs(3) by simp
  ultimately show ?case by blast
qed

lemma renderTaskTree_acc:
  assumes "renderTaskTree h t m hide p l ls = Some r"
  shows "\<exists>blk. r = ls @ blk \<and> (\<forall>ls'. renderTaskTree h t m hide p l ls' = Some (ls' @ blk))"
proof (rule renderTaskTree.raw_induct
    [where P = "\<lambda>h t m hide p l ls r.
       \<exists>blk. r = ls @ blk \<and> (\<forall>ls'. renderTaskTree h t m hide p l ls' = Some (ls' @ blk))",
     OF _ assms])
  fix rtt :: "host \<Rightarrow> task \<Rightarrow> taskMap \<Rightarrow> bool \<Rightarrow> jsstring \<Rightarrow> bool \<Rightarrow> jsstring list \<Rightarrow> jsstring list option"
  fix h t m hide p l ls r
  assume IH: "\<And>h t m hide p l ls r. rtt h t m hide p l ls = Some r \<Longrightarrow>
     \<exists>blk. r = ls @ blk \<and> (\<forall>ls'. renderTaskTree h t m hide p l ls' = Some (ls' @ blk))"
  assume body: "(let lines1 = ls @ nodeLines h t p l in
      case children t of
        Some ids \<Rightarrow>
          if length ids > 0 then
            (let cs = childTasks m hide ids;
                 childPrefix = p @ (if l then pad_blank else pad_bar)
             in forEach (\<lambda>childTask index a. rtt h childTask m hide childPrefix
                      (index = length cs - 1) a) cs 0 lines1)
          else Some lines1
      | None \<Rightarrow> Some lines1) = Some r"
  let ?cs = "childrenOf m hide t"
  let ?f = "\<lambda>c i a. rtt h c m hide (childPrefix p l) (i = length ?cs - 1) a"
  let ?g = "\<lambda>c i a. renderTaskTree h c m hide (childPrefix p l) (i = length ?cs - 1) a"
  from body have run: "forEach ?f ?cs 0 (ls @ nodeLines h t p l) = Some r"
    unfolding renderTaskTree_body .
  have step: "\<And>x j a b. ?f x j a = Some b \<Longrightarrow>
      \<exists>blk. b = a @ blk \<and> (\<forall>a'. ?g x j a' = Some (a' @ blk))"
    using IH by blast
  from forEach_blocks [of ?f ?cs 0 "ls @ nodeLines h t p l" r ?g, OF run step]
  obtain blocks where bs: "r = (ls @ nodeLines h t p l) @ concat blocks"
    "\<And>s'. forEach ?g ?cs 0 s' = Some (s' @ concat blocks)"
    by blast
  have "renderTaskTree h t m hide p l ls' = Some (ls' @ nodeLines h t p l @ concat blocks)" for ls'
  proof -
    have "renderTaskTree h t m hide p l ls' = forEach ?g ?cs 0 (ls' @ nodeLines h t p l)"
      by (rule renderTaskTree_unfold)
    also have "\<dots> = Some ((ls' @ nodeLines h t p l) @ concat blocks)"
      by (rule bs(2))
    finally show ?thesis by simp
  qed
  with bs(1) show "\<exists>blk. r = ls @ blk \<and> (\<forall>ls'. renderTaskTree h t m hide p l ls' = Some (ls' @ blk))"
    by simp
qed

lemma renderTaskTree_blocks:
  assumes "renderTaskTree h t m hide p l ls = Some r"
  shows "\<exists>blocks.
      list_all2 (\<lambda>(c, i) blk. renderTaskTree h c m hide (childPrefix p l)
                    (i = length (childrenOf m hide t) - 1) [] = Some blk)
        (zip (childrenOf m hide t) [0..<length (childrenOf m hide t)]) blocks
      \<and> r = ls @ nodeLines h t p l @ concat blocks"
proof -
  let ?cs = "childrenOf m hide t"
  let ?g = "\<lambda>c i a. renderTaskTree h c m hide (childPrefix p l) (i = length ?cs - 1) a"
  from assms have run: "forEach ?g ?cs 0 (ls @ nodeLines h t p l) = Some r"
    by (subst (asm) renderTaskTree_unfold)
  have step: "\<And>x j a b. ?g x j a = Some b \<Longrightarrow>
      \<exists>blk. b = a @ blk \<and> (\<forall>a'. ?g x j a' = Some (a' @ blk))"
    using renderTaskTree_acc by blast
  from forEach_blocks [of ?g ?cs 0 "ls @ nodeLines h t p l" r ?g, OF run step]
  show ?thesis by auto
qed

lemma nodeLines_hd:
  "hd (nodeLines h c p l) =
     p @ (if l then conn_last else conn_mid) @ formatTaskName c @ ascii '' '' @
     formatTaskLink (id_t c)"
  by (simp add: nodeLines_def Let_def)

lemma render_first_line:
  assumes "renderTaskTree h c m hide p l [] = Some blk"
  shows "hd blk = p @ (if l then conn_last else conn_mid) @ formatTaskName c @ ascii '' '' @
     formatTaskLink (id_t c)"
proof -
  from renderTaskTree_blocks [OF assms] obtain blocks where
    "blk = [] @ nodeLines h c p l @ concat blocks" by blast
  then have "hd blk = hd (nodeLines h c p l)"
    by (simp add: nodeLines_def Let_def)
  then show ?thesis by (simp only: nodeLines_hd)
qed

lemma forEach_total:
  "(\<And>x j a. x \<in> set xs \<Longrightarrow> f x j a \<noteq> None) \<Longrightarrow> forEach f xs i s \<noteq> None"
proof (induction xs arbitrary: i s)
  case Nil
  show ?case by simp
next
  case (Cons x xs)
  from Cons.prems [of x i s] obtain b where "f x i s = Some b" by auto
  moreover have "forEach f xs (Suc i) b \<noteq> None"
    by (rule Cons.IH) (simp add: Cons.prems)
  ultimately show ?case by simp
qed

lemma inherited_leaf: "inherited k = Some c \<Longrightarrow> children c = None"
  by (auto simp: inherited_def nonTask_def split: if_splits)

lemma lookup_cases:
  "lookup m k = Some c \<Longrightarrow> c \<in> set (Object_values m) \<or> children c = None"
  by (auto simp: lookup_def Object_values_def split: option.splits
      dest!: map_of_SomeD inherited_leaf intro: rev_image_eqI)

lemma childTasks_in_map:
  "c \<in> set (childTasks m hide ids) \<Longrightarrow> c \<in> set (Object_values m) \<or> children c = None"
proof -
  assume "c \<in> set (childTasks m hide ids)"
  then obtain k where "lookup m k = Some c"
    by (auto simp: childTasks_def split: option.splits)
  then show ?thesis by (rule lookup_cases)
qed

lemma childrenOf_in_map:
  "c \<in> set (childrenOf m hide t) \<Longrightarrow> c \<in> set (Object_values m) \<or> childrenOf m hide c = []"
  by (auto simp: childrenOf_def split: option.splits dest: childTasks_in_map)

lemma length_ascii [simp]: "length (ascii s) = length s"
  by (simp add: ascii_def)

lemma prototypeMethods_long: "k \<in> set prototypeMethods \<Longrightarrow> 7 \<le> length k"
  by (auto simp: prototypeMethods_def)

lemma inherited_short:
  assumes "length k < 7"
  shows "inherited k = None"
proof -
  have "k \<noteq> ascii ''constructor''" "k \<noteq> ascii ''__proto__''"
    using assms by auto
  moreover have "k \<notin> set prototypeMethods"
    using prototypeMethods_long [of k] assms by auto
  ultimately show ?thesis
    by (simp add: inherited_def)
qed

lemma lookup_own: "map_of m k = Some t \<Longrightarrow> lookup m k = Some t"
  by (simp add: lookup_def)

lemma lookup_short: "length k < 7 \<Longrightarrow> lookup m k = map_of m k"
  by (simp add: lookup_def inherited_short split: option.splits)

lemma childLinks_iff:
  "(c, t) \<in> set (childLinks m hide) \<longleftrightarrow> t \<in> set (Object_values m) \<and> c \<in> set (childrenOf m hide t)"
  by (auto simp: childLinks_def)

lemma renderTaskTree_total:
  assumes "acyclic (set (childLinks m hide))"
    and "t \<in> set (Object_values m) \<or> childrenOf m hide t = []"
  shows "renderTaskTree h t m hide p l ls \<noteq> None"
proof -
  have wf: "wf (set (childLinks m hide))"
    using assms(1) by (simp add: finite_acyclic_wf)
  have "(t \<in> set (Object_values m) \<or> childrenOf m hide t = []) \<longrightarrow>
      (\<forall>p l ls. renderTaskTree h t m hide p l ls \<noteq> None)"
  proof (induction t rule: wf_induct_rule [OF wf])
    case (1 t)
    show ?case
    proof (intro impI allI)
      fix p l ls
      assume tin: "t \<in> set (Object_values m) \<or> childrenOf m hide t = []"
      have "forEach (\<lambda>c i a. renderTaskTree h c m hide (childPrefix p l)
                 (i = length (childrenOf m hide t) - 1) a)
              (childrenOf m hide t) 0 (ls @ nodeLines h t p l) \<noteq> None"
      proof (rule forEach_total)
        fix c j a
        assume c: "c \<in> set (childrenOf m hide t)"
        with tin have "t \<in> set (Object_values m)" by auto
        with c have "(c, t) \<in> set (childLinks m hide)" by (simp add: childLinks_iff)
        from 1 [OF this] childrenOf_in_map [OF c]
        show "renderTaskTree h c m hide (childPrefix p l) (j = length (childrenOf m hide t) - 1) a \<noteq> None"
          by blast
      qed
      then show "renderTaskTree h t m hide p l ls \<noteq> None"
        by (subst renderTaskTree_unfold)
    qed
  qed
  with assms(2) show ?thesis by blast
qed

lemma forEach_Some_elem:
  "forEach f xs i s = Some r \<Longrightarrow> x \<in> set xs \<Longrightarrow> \<exists>j a b. f x j a = Some b"
proof (induction xs arbitrary: i s)
  case Nil
  then show ?case by simp
next
  case (Cons y ys)
  then show ?case by (auto simp: Option.bind_eq_Some_conv)
qed

lemma renderTaskTree_no_cycle:
  assumes "renderTaskTree h t m hide p l ls = Some r"
  shows "\<forall>u. (u, t) \<in> {(c, t). c \<in> set (childrenOf m hide t)}\<^sup>* \<longrightarrow>
         (u, u) \<notin> {(c, t). c \<in> set (childrenOf m hide t)}\<^sup>+"
proof (rule renderTaskTree.raw_induct
    [where P = "\<lambda>h t m hide p l ls r.
       \<forall>u. (u, t) \<in> {(c, t). c \<in> set (childrenOf m hide t)}\<^sup>* \<longrightarrow>
         (u, u) \<notin> {(c, t). c \<in> set (childrenOf m hide t)}\<^sup>+",
     OF _ assms])
  fix rtt :: "host \<Rightarrow> task \<Rightarrow> taskMap \<Rightarrow> bool \<Rightarrow> jsstring \<Rightarrow> bool \<Rightarrow> jsstring list \<Rightarrow> jsstring list option"
  fix h t m hide p l ls r
  let ?R = "{(c, t). c \<in> set (childrenOf m hide t)}"
  assume IH: "\<And>h t m hide p l ls r. rtt h t m hide p l ls = Some r \<Longrightarrow>
     \<forall>u. (u, t) \<in> {(c, t). c \<in> set (childrenOf m hide t)}\<^sup>* \<longrightarrow>
         (u, u) \<notin> {(c, t). c \<in> set (childrenOf m hide t)}\<^sup>+"
  assume body: "(let lines1 = ls @ nodeLines h t p l in
      case children t of
        Some ids \<Rightarrow>
          if length ids > 0 then
            (let cs = childTasks m hide ids;
                 childPrefix = p @ (if l then pad_blank else pad_bar)
             in forEach (\<lambda>childTask index a. rtt h childTask m hide childPrefix
                      (index = length cs - 1) a) cs 0 lines1)
          else Some lines1
      | None \<Rightarrow> Some lines1) = Some r"
  let ?cs = "childrenOf m hide t"
  let ?f = "\<lambda>c i a. rtt h c m hide (childPrefix p l) (i = length ?cs - 1) a"
  from body have run: "forEach ?f ?cs 0 (ls @ nodeLines h t p l) = Some r"
    unfolding renderTaskTree_body .
  have kids: "(u, u) \<notin> ?R\<^sup>+" if c: "c \<in> set ?cs" and u: "(u, c) \<in> ?R\<^sup>*" for c u
  proof -
    from forEach_Some_elem [OF run c] obtain j a b where "?f c j a = Some b" by blast
    from IH [OF this] u show "(u, u) \<notin> ?R\<^sup>+" by blast
  qed
  have self: "(t, t) \<notin> ?R\<^sup>+"
  proof
    assume tt: "(t, t) \<in> ?R\<^sup>+"
    then obtain c where "(t, c) \<in> ?R\<^sup>*" "(c, t) \<in> ?R"
      by (meson tranclD2)
    then show False using kids [of c t] tt by simp
  qed
  show "\<forall>u. (u, t) \<in> ?R\<^sup>* \<longrightarrow> (u, u) \<notin> ?R\<^sup>+"
  proof (intro allI impI)
    fix u assume "(u, t) \<in> ?R\<^sup>*"
    then show "(u, u) \<notin> ?R\<^sup>+"
    proof (cases rule: rtranclE)
      case base
      then show ?thesis using self by simp
    next
      case (step c)
      then show ?thesis using kids [of c u] by simp
    qed
  qed
qed

lemma filteredRootTasks_filter:
  "filteredRootTasks m hide =
     filter (\<lambda>t. parent t = ParentNull \<and> \<not> (hide \<and> completed t)) (Object_values m)"
  by (induction m) (auto simp: filteredRootTasks_def rootTasks_def Object_values_def)

subsection \<open>Termination of the tree renderer\<close>

lemma taskTreeLines_total:
  assumes "acyclic (set (childLinks m hide))"
  shows "taskTreeLines h m hide \<noteq> None"
  unfolding taskTreeLines_def Let_def
proof (rule forEach_total)
  fix x j a
  assume "x \<in> set (filteredRootTasks m hide)"
  then have "x \<in> set (Object_values m)"
    by (auto simp: filteredRootTasks_def rootTasks_def split: if_splits)
  with assms show "renderTaskTree h x m hide [] (j = length (filteredRootTasks m hide) - 1) a \<noteq> None"
    by (intro renderTaskTree_total) simp_all
qed

text \<open>
  C2 (amended). On every task map whose child links, as the renderer follows them between
  the records of the map, have no cycle, the tree renderer returns.
\<close>

theorem tree_renderer_terminates:
  assumes "acyclic (set (childLinks m hide))"
  shows "\<exists>out. formatHierarchicalTasks h pname m hide = Some out"
  using taskTreeLines_total [OF assms, of h]
  by (auto simp: formatHierarchicalTasks_def Let_def)

lemma ascii_A_B [simp]: "ascii ''A'' \<noteq> ascii ''B''" "ascii ''B'' \<noteq> ascii ''A''"
  by (simp_all add: ascii_def)

lemma treeMap_children:
  "childrenOf treeMap hide treeA = [treeB]" "childrenOf treeMap hide treeB = []"
  by (simp_all add: childrenOf_def childTasks_def lookup_short treeMap_def treeA_def treeB_def
      blankTask_def)

lemma treeMap_links: "childLinks treeMap hide = [(treeB, treeA)]"
proof -
  have "Object_values treeMap = [treeA, treeB]"
    by (simp add: Object_values_def treeMap_def)
  then show ?thesis
    by (simp add: childLinks_def treeMap_children)
qed

lemma treeA_neq_treeB: "treeA \<noteq> treeB"
  by (simp add: treeA_def treeB_def blankTask_def)

theorem tree_renderer_terminates_witness:
  "acyclic (set (childLinks treeMap True))
   \<and> (\<exists>out. formatHierarchicalTasks host0 (ascii ''P'') treeMap True = Some out)"
proof -
  have a: "acyclic (set (childLinks treeMap True))"
    using treeA_neq_treeB by (simp add: treeMap_links acyclic_insert) (simp add: acyclic_def)
  from a tree_renderer_terminates [OF a] show ?thesis by blast
qed

lemma cyclicMap_children:
  "childrenOf cyclicMap hide treeA = [cycB]" "childrenOf cyclicMap hide cycB = [treeA]"
  by (simp_all add: childrenOf_def childTasks_def lookup_short cyclicMap_def treeA_def treeB_def
      cycB_def blankTask_def)

lemma cyclicMap_roots: "filteredRootTasks cyclicMap hide = [treeA]"
  by (simp add: filteredRootTasks_def rootTasks_def Object_values_def cyclicMap_def treeA_def
      treeB_def cycB_def blankTask_def)

lemma cyclic_render_None: "renderTaskTree h treeA cyclicMap hide p l ls = None"
proof (cases "renderTaskTree h treeA cyclicMap hide p l ls")
  case None
  then show ?thesis .
next
  case (Some r)
  let ?R = "{(c, t). c \<in> set (childrenOf cyclicMap hide t)}"
  have "(treeA, cycB) \<in> ?R" "(cycB, treeA) \<in> ?R"
    by (simp_all add: cyclicMap_children)
  then have "(treeA, treeA) \<in> ?R\<^sup>+"
    by (meson trancl.intros)
  with renderTaskTree_no_cycle [OF Some] show ?thesis by blast
qed

text \<open>
  C2 as stated fails: the walk carries no visited set and no depth bound, and on the map
  where \<open>A\<close> lists \<open>B\<close> and \<open>B\<close> lists \<open>A\<close> the renderer does not return.
\<close>

theorem tree_renderer_terminates_counterexample:
  "formatHierarchicalTasks host0 (ascii ''P'') cyclicMap True = None"
  by (simp add: formatHierarchicalTasks_def taskTreeLines_def cyclicMap_roots cyclic_render_None)


subsection \<open>What the tree renderer visits\<close>

lemma taskTreeLines_blocks:
  assumes "taskTreeLines h m hide = Some out"
  shows "\<exists>blocks.
      list_all2 (\<lambda>(r, i) blk. renderTaskTree h r m hide []
                    (i = length (filteredRootTasks m hide) - 1) [] = Some blk)
        (zip (filteredRootTasks m hide) [0..<length (filteredRootTasks m hide)]) blocks
      \<and> out = concat blocks"
proof -
  let ?rs = "filteredRootTasks m hide"
  let ?g = "\<lambda>r i a. renderTaskTree h r m hide [] (i = length ?rs - 1) a"
  from assms have run: "forEach ?g ?rs 0 [] = Some out"
    by (simp add: taskTreeLines_def Let_def)
  have step: "\<And>x j a b. ?g x j a = Some b \<Longrightarrow>
      \<exists>blk. b = a @ blk \<and> (\<forall>a'. ?g x j a' = Some (a' @ blk))"
    using renderTaskTree_acc by blast
  from forEach_blocks [of ?g ?rs 0 "[]" out ?g, OF run step]
  show ?thesis by auto
qed

text \<open>
  C3 (amended). Whenever the tree renderer returns, its lines are exactly one block per
  entry of the filtered root list, in order, and the block of a rendered node is its own
  lines followed by exactly one block per entry of its filtered child list, in order: each
  root is visited once and each child once per parent reference, driven by the \<open>children\<close>
  lists alone.
\<close>

theorem tree_visits:
  "(taskTreeLines h m hide = Some out \<longrightarrow>
      (\<exists>blocks.
         list_all2 (\<lambda>(r, i) blk. renderTaskTree h r m hide []
                       (i = length (filteredRootTasks m hide) - 1) [] = Some blk)
           (zip (filteredRootTasks m hide) [0..<length (filteredRootTasks m hide)]) blocks
         \<and> out = concat blocks))
   \<and> (renderTaskTree h t m hide p l ls = Some r \<longrightarrow>
      (\<exists>blocks.
         list_all2 (\<lambda>(c, i) blk. renderTaskTree h c m hide (childPrefix p l)
                       (i = length (childrenOf m hide t) - 1) [] = Some blk)
           (zip (childrenOf m hide t) [0..<length (childrenOf m hide t)]) blocks
         \<and> r = ls @ nodeLines h t p l @ concat blocks))"
  using taskTreeLines_blocks [of h m hide out] renderTaskTree_blocks [of h t m hide p l ls r]
  by blast

lemma render_leaf:
  "childrenOf m hide t = [] \<Longrightarrow> renderTaskTree h t m hide p l ls = Some (ls @ nodeLines h t p l)"
  by (subst renderTaskTree_unfold) simp

lemma render_one_child:
  assumes "childrenOf m hide t = [c]" and "childrenOf m hide c = []"
  shows "renderTaskTree h t m hide p l ls =
     Some (ls @ nodeLines h t p l @ nodeLines h c (childPrefix p l) True)"
  by (subst renderTaskTree_unfold) (simp add: assms render_leaf)

lemma sharedMap_children:
  "childrenOf sharedMap hide treeA = [sharedB]" "childrenOf sharedMap hide sharedB = []"
  by (simp_all add: childrenOf_def childTasks_def lookup_short sharedMap_def treeA_def sharedB_def
      blankTask_def)

lemma sharedMap_roots: "filteredRootTasks sharedMap hide = [treeA, sharedB]"
  by (simp add: filteredRootTasks_filter Object_values_def sharedMap_def treeA_def sharedB_def
      blankTask_def)

lemma treeMap_roots: "filteredRootTasks treeMap hide = [treeA]"
  by (simp add: filteredRootTasks_filter Object_values_def treeMap_def treeA_def treeB_def
      blankTask_def)

lemma treeMap_lines:
  "taskTreeLines host0 treeMap True =
     Some (nodeLines host0 treeA [] True @ nodeLines host0 treeB (childPrefix [] True) True)"
  by (simp add: taskTreeLines_def treeMap_roots render_one_child treeMap_children)

theorem tree_visits_witness:
  "taskTreeLines host0 treeMap True =
     Some (nodeLines host0 treeA [] True @ nodeLines host0 treeB pad_blank True)
   \<and> renderTaskTree host0 treeA treeMap True [] True [] =
     Some (nodeLines host0 treeA [] True @ nodeLines host0 treeB pad_blank True)
   \<and> (\<exists>blocks.
         list_all2 (\<lambda>(r, i) blk. renderTaskTree host0 r treeMap True [] (i = 0) [] = Some blk)
           [(treeA, 0::nat)] blocks
         \<and> nodeLines host0 treeA [] True @ nodeLines host0 treeB pad_blank True = concat blocks)
   \<and> (\<exists>blocks.
         list_all2 (\<lambda>(c, i) blk. renderTaskTree host0 c treeMap True pad_blank (i = 0) [] = Some blk)
           [(treeB, 0::nat)] blocks
         \<and> nodeLines host0 treeA [] True @ nodeLines host0 treeB pad_blank True =
             nodeLines host0 treeA [] True @ concat blocks)"
proof -
  have r: "renderTaskTree host0 treeA treeMap True [] True [] =
     Some (nodeLines host0 treeA [] True @ nodeLines host0 treeB (childPrefix [] True) True)"
    by (simp add: render_one_child treeMap_children)
  from tree_visits [of host0 treeMap True
      "nodeLines host0 treeA [] True @ nodeLines host0 treeB (childPrefix [] True) True"
      treeA "[]" True "[]"
      "nodeLines host0 treeA [] True @ nodeLines host0 treeB (childPrefix [] True) True"]
    treeMap_lines r
  show ?thesis
    by (simp add: treeMap_roots treeMap_children childPrefix_def)
qed

text \<open>
  C3 as stated fails in its last part: a record with a null \<open>parent\<close> that is also listed in
  the \<open>children\<close> of another root is rendered in both places, so its line appears twice.
\<close>

theorem tree_visits_counterexample:
  "set (filteredRootTasks sharedMap True) = {treeA, sharedB}
   \<and> children treeA = Some [id_t sharedB]
   \<and> taskTreeLines host0 sharedMap True =
       Some (nodeLines host0 treeA [] False @ nodeLines host0 sharedB pad_bar True @
             nodeLines host0 sharedB [] True)
   \<and> nodeLines host0 sharedB pad_bar True =
       [pad_bar @ conn_last @ ascii ''**B** '' @ formatTaskLink (ascii ''B'')]
   \<and> nodeLines host0 sharedB [] True =
       [conn_last @ ascii ''**B** '' @ formatTaskLink (ascii ''B'')]"
proof -
  have l: "taskTreeLines host0 sharedMap True =
       Some (nodeLines host0 treeA [] False @ nodeLines host0 sharedB pad_bar True @
             nodeLines host0 sharedB [] True)"
    by (simp add: taskTreeLines_def sharedMap_roots render_one_child render_leaf
        sharedMap_children childPrefix_def)
  have n: "nodeLines host0 sharedB q True =
       [q @ conn_last @ ascii ''**B** '' @ formatTaskLink (ascii ''B'')]" for q
    by (simp add: nodeLines_def formatTaskName_def formatTaskDetails_def details_project_def
        details_tags_def details_dueDate_def details_estimate_def details_note_def sharedB_def
        blankTask_def ascii_def)
  show ?thesis
    using l n [of pad_bar] n [of "[]"]
    by (simp add: sharedMap_roots) (simp add: treeA_def sharedB_def blankTask_def)
qed


subsection \<open>The root set\<close>

lemma root_blocks:
  assumes "taskTreeLines h m hide = Some out"
  shows "\<exists>blocks.
      list_all2 (\<lambda>(r, i) blk.
          hd blk = (if i = length (filteredRootTasks m hide) - 1 then conn_last else conn_mid) @
                   formatTaskName r @ ascii '' '' @ formatTaskLink (id_t r))
        (zip (filteredRootTasks m hide) [0..<length (filteredRootTasks m hide)]) blocks
      \<and> out = concat blocks"
proof -
  from taskTreeLines_blocks [OF assms] obtain blocks where
    b: "list_all2 (\<lambda>(r, i) blk. renderTaskTree h r m hide []
                    (i = length (filteredRootTasks m hide) - 1) [] = Some blk)
        (zip (filteredRootTasks m hide) [0..<length (filteredRootTasks m hide)]) blocks"
    and out: "out = concat blocks"
    by blast
  from b have "list_all2 (\<lambda>(r, i) blk.
          hd blk = (if i = length (filteredRootTasks m hide) - 1 then conn_last else conn_mid) @
                   formatTaskName r @ ascii '' '' @ formatTaskLink (id_t r))
        (zip (filteredRootTasks m hide) [0..<length (filteredRootTasks m hide)]) blocks"
    by (rule list_all2_mono) (auto dest: render_first_line)
  with out show ?thesis by blast
qed

text \<open>
  C6 (amended). The root set of the hierarchical renderer is exactly the records of the map
  whose \<open>parent\<close> is \<open>null\<close>, in the order of the map, with completed roots dropped when
  \<open>hideCompleted\<close> is set: a record with a null \<open>parent\<close> joins the roots, a record whose
  \<open>parent\<close> is missing or names another task does not. Without roots the renderer reports
  that there are none; otherwise its output is one block per root, in order, each starting
  with the line of its root.
\<close>

theorem root_set:
  "filteredRootTasks m hide =
     filter (\<lambda>t. parent t = ParentNull \<and> \<not> (hide \<and> completed t)) (Object_values m)
   \<and> filteredRootTasks ((k, t\<lparr>parent := ParentNull\<rparr>) # m) hide =
       (if hide \<and> completed t then [] else [t\<lparr>parent := ParentNull\<rparr>]) @ filteredRootTasks m hide
   \<and> filteredRootTasks ((k, t\<lparr>parent := ParentAbsent\<rparr>) # m) hide = filteredRootTasks m hide
   \<and> filteredRootTasks ((k, t\<lparr>parent := ParentId p\<rparr>) # m) hide = filteredRootTasks m hide
   \<and> (filteredRootTasks m hide = [] \<longrightarrow>
        formatHierarchicalTasks h pname m hide =
          Some (hierarchyHeader pname @ str_none @ (if hide then str_unfinished else []) @
                [0x6839, 0x4EFB, 0x52A1, 0x3002]))
   \<and> (taskTreeLines h m hide = Some out \<longrightarrow>
        (\<exists>blocks.
           list_all2 (\<lambda>(r, i) blk.
               hd blk = (if i = length (filteredRootTasks m hide) - 1 then conn_last else conn_mid) @
                        formatTaskName r @ ascii '' '' @ formatTaskLink (id_t r))
             (zip (filteredRootTasks m hide) [0..<length (filteredRootTasks m hide)]) blocks
           \<and> out = concat blocks))"
proof -
  have sets: "filteredRootTasks ((k, t\<lparr>parent := ParentNull\<rparr>) # m) hide =
       (if hide \<and> completed t then [] else [t\<lparr>parent := ParentNull\<rparr>]) @ filteredRootTasks m hide"
    "filteredRootTasks ((k, t\<lparr>parent := ParentAbsent\<rparr>) # m) hide = filteredRootTasks m hide"
    "filteredRootTasks ((k, t\<lparr>parent := ParentId p\<rparr>) # m) hide = filteredRootTasks m hide"
    by (simp_all add: filteredRootTasks_filter Object_values_def)
  have none: "filteredRootTasks m hide = [] \<longrightarrow>
        formatHierarchicalTasks h pname m hide =
          Some (hierarchyHeader pname @ str_none @ (if hide then str_unfinished else []) @
                [0x6839, 0x4EFB, 0x52A1, 0x3002])"
    by (simp add: formatHierarchicalTasks_def)
  from filteredRootTasks_filter [of m hide] sets none root_blocks [of h m hide out]
  show ?thesis by blast
qed

text \<open>
  C6 as stated fails: the test is \<open>parent === null\<close>, so the only record of a map, with its
  \<open>parent\<close> field missing, is not a root and the renderer reports that there are no roots.
\<close>

theorem root_set_counterexample:
  "parent orphanTask = ParentAbsent
   \<and> filteredRootTasks orphanMap True = []
   \<and> formatHierarchicalTasks host0 (ascii ''P'') orphanMap True =
       Some (hierarchyHeader (ascii ''P'') @ str_none @ str_unfinished @
             [0x6839, 0x4EFB, 0x52A1, 0x3002])"
  by (simp add: filteredRootTasks_filter Object_values_def orphanMap_def orphanTask_def
      formatHierarchicalTasks_def)

theorem root_set_witness:
  "filteredRootTasks treeMap True = [treeA]
   \<and> filteredRootTasks ((ascii ''Z'', orphanTask\<lparr>parent := ParentAbsent\<rparr>) # treeMap) True = [treeA]
   \<and> filteredRootTasks [] True = []
   \<and> formatHierarchicalTasks host0 (ascii ''P'') [] True =
       Some (hierarchyHeader (ascii ''P'') @ str_none @ str_unfinished @
             [0x6839, 0x4EFB, 0x52A1, 0x3002])
   \<and> taskTreeLines host0 treeMap True =
       Some (nodeLines host0 treeA [] True @ nodeLines host0 treeB (childPrefix [] True) True)
   \<and> (\<exists>blocks.
         list_all2 (\<lambda>(r, i) blk.
             hd blk = (if i = 0 then conn_last else conn_mid) @
                      formatTaskName r @ ascii '' '' @ formatTaskLink (id_t r))
           [(treeA, 0::nat)] blocks
         \<and> nodeLines host0 treeA [] True @ nodeLines host0 treeB (childPrefix [] True) True =
             concat blocks)"
proof -
  have e: "filteredRootTasks [] True = []"
    by (simp add: filteredRootTasks_filter Object_values_def)
  from root_set [where m = treeMap and hide = True and t = orphanTask and k = "ascii ''Z''"
      and h = host0
      and out = "nodeLines host0 treeA [] True @ nodeLines host0 treeB (childPrefix [] True) True"]
    root_set [where m = "[]" and hide = True and h = host0 and pname = "ascii ''P''"]
    treeMap_lines e
  show ?thesis
    by (simp add: treeMap_roots)
qed

subsection \<open>Resolution of children\<close>

lemma childTasks_Cons:
  "childTasks m hide (k # ks) =
     (case lookup m k of None \<Rightarrow> []
      | Some c \<Rightarrow> if hide \<and> completed c then [] else [c]) @ childTasks m hide ks"
  unfolding childTasks_def by (cases "lookup m k") auto

lemma childTasks_map_filter:
  "childTasks m hide ids =
     List.map_filter (\<lambda>k. case lookup m k of None \<Rightarrow> None
        | Some c \<Rightarrow> if hide \<and> completed c then None else Some c) ids"
  by (induction ids) (simp_all add: childTasks_Cons List.map_filter_simps split: option.splits)

lemma childTasks_append:
  "childTasks m hide (xs @ ys) = childTasks m hide xs @ childTasks m hide ys"
  by (simp add: childTasks_def)

lemma childTasks_absent: "lookup m k = None \<Longrightarrow> childTasks m hide (k # ys) = childTasks m hide ys"
  by (simp add: childTasks_Cons)

lemma childTasks_completed:
  "lookup m k = Some c \<Longrightarrow> completed c \<Longrightarrow> childTasks m True (k # ys) = childTasks m True ys"
  by (simp add: childTasks_Cons)

lemma formatTaskName_children: "formatTaskName (t\<lparr>children := x\<rparr>) = formatTaskName t"
  by (simp add: formatTaskName_def Let_def cong: if_cong)

lemma formatTaskDetails_children: "formatTaskDetails h (t\<lparr>children := x\<rparr>) = formatTaskDetails h t"
  by (simp add: formatTaskDetails_def details_project_def details_tags_def details_dueDate_def
      details_estimate_def details_note_def)

lemma nodeLines_children: "nodeLines h (t\<lparr>children := x\<rparr>) p l = nodeLines h t p l"
  by (simp add: nodeLines_def formatTaskName_children formatTaskDetails_children)

lemma render_same_children:
  assumes "childrenOf m hide (t\<lparr>children := x\<rparr>) = childrenOf m hide (t\<lparr>children := y\<rparr>)"
  shows "renderTaskTree h (t\<lparr>children := x\<rparr>) m hide p l ls =
         renderTaskTree h (t\<lparr>children := y\<rparr>) m hide p l ls"
proof -
  have "renderTaskTree h (t\<lparr>children := x\<rparr>) m hide p l ls =
      forEach (\<lambda>c i a. renderTaskTree h c m hide (childPrefix p l)
                 (i = length (childrenOf m hide (t\<lparr>children := y\<rparr>)) - 1) a)
        (childrenOf m hide (t\<lparr>children := y\<rparr>)) 0 (ls @ nodeLines h (t\<lparr>children := y\<rparr>) p l)"
    by (subst renderTaskTree_unfold) (simp only: assms nodeLines_children)
  also have "\<dots> = renderTaskTree h (t\<lparr>children := y\<rparr>) m hide p l ls"
    by (rule renderTaskTree_unfold [symmetric])
  finally show ?thesis .
qed

text \<open>
  What holds of the resolution of children: they are looked up in the order of \<open>children\<close>;
  an id that \<open>taskMap[id]\<close> does not find is dropped, and the rendering is the same as
  without it; with \<open>hideCompleted\<close> a completed child is dropped as well. The children that
  remain are rendered in order, and the connector of each is decided by its position in this
  filtered list: the last one gets the last-sibling connector, the others the mid-sibling
  connector.
\<close>

lemma child_list_structure:
  "childTasks m hide ids =
     List.map_filter (\<lambda>k. case lookup m k of None \<Rightarrow> None
        | Some c \<Rightarrow> if hide \<and> completed c then None else Some c) ids
   \<and> (lookup m k = None \<longrightarrow>
        childTasks m hide (xs @ k # ys) = childTasks m hide (xs @ ys)
        \<and> renderTaskTree h (t\<lparr>children := Some (xs @ k # ys)\<rparr>) m hide p l ls =
          renderTaskTree h (t\<lparr>children := Some (xs @ ys)\<rparr>) m hide p l ls)
   \<and> (lookup m k = Some d \<and> completed d \<longrightarrow>
        childTasks m True (xs @ k # ys) = childTasks m True (xs @ ys))
   \<and> (renderTaskTree h t m hide p l ls = Some r \<longrightarrow>
        (\<exists>blocks.
           list_all2 (\<lambda>(c, i) blk.
               renderTaskTree h c m hide (childPrefix p l)
                 (i = length (childrenOf m hide t) - 1) [] = Some blk
               \<and> hd blk = childPrefix p l @
                   (if i = length (childrenOf m hide t) - 1 then conn_last else conn_mid) @
                   formatTaskName c @ ascii '' '' @ formatTaskLink (id_t c))
             (zip (childrenOf m hide t) [0..<length (childrenOf m hide t)]) blocks
           \<and> r = ls @ nodeLines h t p l @ concat blocks))"
proof -
  have absent: "childTasks m hide (xs @ k # ys) = childTasks m hide (xs @ ys)"
    if "lookup m k = None"
    using that by (simp add: childTasks_append childTasks_absent)
  have absent_render: "renderTaskTree h (t\<lparr>children := Some (xs @ k # ys)\<rparr>) m hide p l ls =
          renderTaskTree h (t\<lparr>children := Some (xs @ ys)\<rparr>) m hide p l ls"
    if "lookup m k = None"
    by (rule render_same_children) (simp add: childrenOf_def absent [OF that])
  have dropped: "childTasks m True (xs @ k # ys) = childTasks m True (xs @ ys)"
    if "lookup m k = Some d" "completed d"
    using that by (simp add: childTasks_append childTasks_completed)
  have blocks: "\<exists>blocks.
           list_all2 (\<lambda>(c, i) blk.
               renderTaskTree h c m hide (childPrefix p l)
                 (i = length (childrenOf m hide t) - 1) [] = Some blk
               \<and> hd blk = childPrefix p l @
                   (if i = length (childrenOf m hide t) - 1 then conn_last else conn_mid) @
                   formatTaskName c @ ascii '' '' @ formatTaskLink (id_t c))
             (zip (childrenOf m hide t) [0..<length (childrenOf m hide t)]) blocks
           \<and> r = ls @ nodeLines h t p l @ concat blocks"
    if run: "renderTaskTree h t m hide p l ls = Some r"
  proof -
    from renderTaskTree_blocks [OF run] obtain blocks where
      b: "list_all2 (\<lambda>(c, i) blk. renderTaskTree h c m hide (childPrefix p l)
                    (i = length (childrenOf m hide t) - 1) [] = Some blk)
        (zip (childrenOf m hide t) [0..<length (childrenOf m hide t)]) blocks"
      and r: "r = ls @ nodeLines h t p l @ concat blocks"
      by blast
    from b have "list_all2 (\<lambda>(c, i) blk.
               renderTaskTree h c m hide (childPrefix p l)
                 (i = length (childrenOf m hide t) - 1) [] = Some blk
               \<and> hd blk = childPrefix p l @
                   (if i = length (childrenOf m hide t) - 1 then conn_last else conn_mid) @
                   formatTaskName c @ ascii '' '' @ formatTaskLink (id_t c))
             (zip (childrenOf m hide t) [0..<length (childrenOf m hide t)]) blocks"
      by (rule list_all2_mono) (auto dest: render_first_line)
    with r show ?thesis by blast
  qed
  from childTasks_map_filter [of m hide ids] absent absent_render dropped blocks
  show ?thesis by blast
qed

lemma mixedMap_lookup:
  "lookup mixedMap (ascii ''X'') = None" "lookup mixedMap (ascii ''B'') = Some treeB"
  "lookup mixedMap (ascii ''C'') = Some doneC"
  by (simp_all add: lookup_short mixedMap_def) (simp_all add: ascii_def)

lemma mixedMap_children:
  "childrenOf mixedMap True mixedA = [treeB]" "childrenOf mixedMap True treeB = []"
  by (simp_all add: childrenOf_def childTasks_def mixedMap_lookup mixedA_def treeB_def doneC_def
      blankTask_def)

lemma child_list_structure_example:
  "lookup mixedMap (ascii ''X'') = None
   \<and> childTasks mixedMap True [ascii ''X'', ascii ''B'', ascii ''C''] = [treeB]
   \<and> renderTaskTree host0 mixedA mixedMap True [] True [] =
       Some (nodeLines host0 mixedA [] True @ nodeLines host0 treeB pad_blank True)"
proof -
  have r: "renderTaskTree host0 mixedA mixedMap True [] True [] =
       Some (nodeLines host0 mixedA [] True @ nodeLines host0 treeB pad_blank True)"
    by (simp add: render_one_child mixedMap_children childPrefix_def)
  have k: "childTasks mixedMap True [ascii ''X'', ascii ''B'', ascii ''C''] = [treeB]"
    using mixedMap_children(1) by (simp add: childrenOf_def mixedA_def)
  from r k mixedMap_lookup show ?thesis by simp
qed

text \<open>
  C7 fails on the code. The filter \<open>child && ...\<close> is there to drop the ids that the map does
  not hold, but \<open>taskMap[childId]\<close> also finds what every object inherits: the id
  \<open>constructor\<close> is not a key of the map, and yet the function \<open>Object\<close> is rendered as the
  last child of \<open>A\<close>, under its own name and without a link.
\<close>

theorem child_resolution_inherited:
  "map_of ctorMap (ascii ''constructor'') = None
   \<and> formatHierarchicalTasks host0 (ascii ''P'') ctorMap True =
       Some (hierarchyHeader (ascii ''P'') @
             join [0x0A]
               [conn_last @ ascii ''**A** '' @ formatTaskLink (ascii ''A''),
                pad_blank @ conn_last @ ascii ''**Object** ''])"
proof -
  have own: "map_of ctorMap (ascii ''constructor'') = None"
    by (simp add: ctorMap_def ascii_def)
  have found: "lookup ctorMap (ascii ''constructor'') = Some (nonTask (ascii ''Object''))"
    by (simp add: lookup_def own inherited_def)
  have kids: "childrenOf ctorMap True ctorA = [nonTask (ascii ''Object'')]"
    "childrenOf ctorMap True (nonTask (ascii ''Object'')) = []"
    by (simp_all add: childrenOf_def childTasks_Cons found ctorA_def blankTask_def nonTask_def)
  have roots: "filteredRootTasks ctorMap True = [ctorA]"
    by (simp add: filteredRootTasks_filter Object_values_def ctorMap_def ctorA_def blankTask_def)
  have lines: "taskTreeLines host0 ctorMap True =
      Some (nodeLines host0 ctorA [] True @ nodeLines host0 (nonTask (ascii ''Object'')) pad_blank True)"
    by (simp add: taskTreeLines_def roots render_one_child kids childPrefix_def)
  have a: "nodeLines host0 ctorA [] True = [conn_last @ ascii ''**A** '' @ formatTaskLink (ascii ''A'')]"
    by (simp add: nodeLines_def formatTaskName_def formatTaskDetails_def details_project_def
        details_tags_def details_dueDate_def details_estimate_def details_note_def ctorA_def
        blankTask_def ascii_def)
  have b: "nodeLines host0 (nonTask (ascii ''Object'')) pad_blank True =
      [pad_blank @ conn_last @ ascii ''**Object** '']"
    by (simp add: nodeLines_def formatTaskName_def formatTaskDetails_def details_project_def
        details_tags_def details_dueDate_def details_estimate_def details_note_def nonTask_def
        formatTaskLink_def ascii_def)
  from own show ?thesis
    by (simp add: formatHierarchicalTasks_def roots lines a b)
qed

subsection \<open>What the renderers print for a task\<close>

lemma nodeLines_eq:
  "nodeLines h t p l =
     (p @ (if l then conn_last else conn_mid) @ formatTaskName t @ ascii '' '' @
        formatTaskLink (id_t t)) #
     map (\<lambda>d. (p @ (if l then pad_blank else pad_bar)) @ d) (formatTaskDetails h t)"
  by (simp add: nodeLines_def Let_def)

lemma render_prints_node:
  assumes "renderTaskTree h t m hide p l ls = Some r"
  shows "\<exists>rest. r = ls @ nodeLines h t p l @ rest"
  using renderTaskTree_blocks [OF assms] by blast

lemma flat_output:
  "formatFlatTasks h pname ts lim tot =
     flatHeader h pname (length (displayTasks ts lim)) @
     join [0x0A, 0x0A]
       (map (\<lambda>(t, i). flatTaskText h t i)
          (zip (displayTasks ts lim) [0..<length (displayTasks ts lim)])) @
     flatFooter h tot (length (displayTasks ts lim))"
  by (simp add: formatFlatTasks_def flatTaskList_def Let_def)

subsection \<open>Note previews\<close>

lemma substring_from_0: "substring s 0 n = take n s"
  by (simp add: substring_def)

lemma trim_nonempty: "trim n \<noteq> [] \<Longrightarrow> n \<noteq> []"
  by (auto simp: trim_def)

lemma details_note_cases:
  "details_note t =
     (case note_t t of
        None \<Rightarrow> []
      | Some n \<Rightarrow>
          if trim n = [] then []
          else [lbl_note @ take 60 (trim n) @ (if 60 < length n then ellipsis else [])])"
  using trim_nonempty by (auto simp: details_note_def substring_from_0 split: option.splits)

lemma flat_note_cases:
  "flat_note t =
     (case note_t t of
        None \<Rightarrow> []
      | Some n \<Rightarrow>
          if trim n = [] then []
          else nl_indent @ lbl_note @ take 100 (trim n) @
               (if 100 < length n then ellipsis else []))"
  using trim_nonempty by (auto simp: flat_note_def substring_from_0 split: option.splits)

text \<open>
  C1 (amended). The note preview is cut from the trimmed note. A task without a note, or
  with a note that is blank after trimming, gets no note line: the detail lines of the tree
  renderer end with the estimate, and the block of the flat renderer goes from the estimate
  to the link. Otherwise the note line is the label followed by the first 60 code units of
  the trimmed note in the detail lines, the first 100 in the flat block, followed by the
  ellipsis exactly when the original note is longer than the budget. Hence a non-empty note
  without surrounding white space is printed unchanged when its length is at most the
  budget, and as exactly its first budget code units followed by the ellipsis when it is
  longer. The detail lines are printed under the line of the task wherever the tree renderer
  reaches it, and the flat output is the header, the blocks of the displayed tasks and the
  footer.
\<close>

theorem note_preview:
  "(note_t t = None \<or> (note_t t = Some n \<and> trim n = []) \<longrightarrow>
      formatTaskDetails h t =
        details_project t @ details_tags t @ details_dueDate h t @ details_estimate h t
      \<and> flatTaskText h t i =
        numberToString h (int i + 1) @ ascii ''. **'' @ name t @ ascii ''**'' @
        flat_project t @ flat_tags t @ flat_dueDate h t @ flat_flagged t @ flat_estimate h t @
        nl_indent @ formatTaskLink (id_t t))
   \<and> (note_t t = Some n \<and> trim n \<noteq> [] \<longrightarrow>
      formatTaskDetails h t =
        details_project t @ details_tags t @ details_dueDate h t @ details_estimate h t @
        [lbl_note @ take 60 (trim n) @ (if 60 < length n then ellipsis else [])]
      \<and> flatTaskText h t i =
        numberToString h (int i + 1) @ ascii ''. **'' @ name t @ ascii ''**'' @
        flat_project t @ flat_tags t @ flat_dueDate h t @ flat_flagged t @ flat_estimate h t @
        nl_indent @ lbl_note @ take 100 (trim n) @ (if 100 < length n then ellipsis else []) @
        nl_indent @ formatTaskLink (id_t t))
   \<and> (note_t t = Some n \<and> trim n = n \<and> n \<noteq> [] \<longrightarrow>
      formatTaskDetails h t =
        details_project t @ details_tags t @ details_dueDate h t @ details_estimate h t @
        [lbl_note @ (if length n \<le> 60 then n else take 60 n @ ellipsis)]
      \<and> flatTaskText h t i =
        numberToString h (int i + 1) @ ascii ''. **'' @ name t @ ascii ''**'' @
        flat_project t @ flat_tags t @ flat_dueDate h t @ flat_flagged t @ flat_estimate h t @
        nl_indent @ lbl_note @ (if length n \<le> 100 then n else take 100 n @ ellipsis) @
        nl_indent @ formatTaskLink (id_t t))
   \<and> nodeLines h t p l =
       (p @ (if l then conn_last else conn_mid) @ formatTaskName t @ ascii '' '' @
          formatTaskLink (id_t t)) #
       map (\<lambda>d. (p @ (if l then pad_blank else pad_bar)) @ d) (formatTaskDetails h t)
   \<and> (renderTaskTree h t m hide p l ls = Some r \<longrightarrow>
        (\<exists>rest. r = ls @ nodeLines h t p l @ rest))
   \<and> formatFlatTasks h pname ts lim tot =
       flatHeader h pname (length (displayTasks ts lim)) @
       join [0x0A, 0x0A]
         (map (\<lambda>(t, i). flatTaskText h t i)
            (zip (displayTasks ts lim) [0..<length (displayTasks ts lim)])) @
       flatFooter h tot (length (displayTasks ts lim))"
proof -
  have none: "formatTaskDetails h t =
        details_project t @ details_tags t @ details_dueDate h t @ details_estimate h t
      \<and> flatTaskText h t i =
        numberToString h (int i + 1) @ ascii ''. **'' @ name t @ ascii ''**'' @
        flat_project t @ flat_tags t @ flat_dueDate h t @ flat_flagged t @ flat_estimate h t @
        nl_indent @ formatTaskLink (id_t t)"
    if "note_t t = None \<or> (note_t t = Some n \<and> trim n = [])"
    using that
    by (auto simp: formatTaskDetails_def flatTaskText_def details_note_cases flat_note_cases)
  have some: "formatTaskDetails h t =
        details_project t @ details_tags t @ details_dueDate h t @ details_estimate h t @
        [lbl_note @ take 60 (trim n) @ (if 60 < length n then ellipsis else [])]
      \<and> flatTaskText h t i =
        numberToString h (int i + 1) @ ascii ''. **'' @ name t @ ascii ''**'' @
        flat_project t @ flat_tags t @ flat_dueDate h t @ flat_flagged t @ flat_estimate h t @
        nl_indent @ lbl_note @ take 100 (trim n) @ (if 100 < length n then ellipsis else []) @
        nl_indent @ formatTaskLink (id_t t)"
    if "note_t t = Some n \<and> trim n \<noteq> []"
    using that
    by (simp add: formatTaskDetails_def flatTaskText_def details_note_cases flat_note_cases)
  have plain: "formatTaskDetails h t =
        details_project t @ details_tags t @ details_dueDate h t @ details_estimate h t @
        [lbl_note @ (if length n \<le> 60 then n else take 60 n @ ellipsis)]
      \<and> flatTaskText h t i =
        numberToString h (int i + 1) @ ascii ''. **'' @ name t @ ascii ''**'' @
        flat_project t @ flat_tags t @ flat_dueDate h t @ flat_flagged t @ flat_estimate h t @
        nl_indent @ lbl_note @ (if length n \<le> 100 then n else take 100 n @ ellipsis) @
        nl_indent @ formatTaskLink (id_t t)"
    if "note_t t = Some n \<and> trim n = n \<and> n \<noteq> []"
    using that
    by (simp add: formatTaskDetails_def flatTaskText_def details_note_cases flat_note_cases)
  from none some plain nodeLines_eq [of h t p l] render_prints_node [of h t m hide p l ls r]
    flat_output [of h pname ts lim tot]
  show ?thesis by blast
qed


lemma blank_details:
  "details_project (blankTask i n\<lparr>note_t := x\<rparr>) = []"
  "details_tags (blankTask i n\<lparr>note_t := x\<rparr>) = []"
  "details_dueDate h (blankTask i n\<lparr>note_t := x\<rparr>) = []"
  "details_estimate h (blankTask i n\<lparr>note_t := x\<rparr>) = []"
  by (simp_all add: details_project_def details_tags_def details_dueDate_def details_estimate_def
      blankTask_def)

lemma blank_flat:
  "flat_project (blankTask i n\<lparr>note_t := x\<rparr>) = []"
  "flat_tags (blankTask i n\<lparr>note_t := x\<rparr>) = []"
  "flat_dueDate h (blankTask i n\<lparr>note_t := x\<rparr>) = []"
  "flat_flagged (blankTask i n\<lparr>note_t := x\<rparr>) = []"
  "flat_estimate h (blankTask i n\<lparr>note_t := x\<rparr>) = []"
  by (simp_all add: flat_project_def flat_tags_def flat_dueDate_def flat_flagged_def
      flat_estimate_def blankTask_def)

lemma trim_ab: "trim [0x61, 0x62] = [0x61, 0x62]"
  by (simp add: trim_def isWhiteSpace_def)

lemma trim_long: "trim (replicate 61 0x61) = replicate 61 0x61"
  by (simp add: trim_def isWhiteSpace_def dropWhile_replicate)

theorem note_preview_witness:
  "note_t (blankTask [] [] \<lparr>note_t := None\<rparr>) = None
   \<and> formatTaskDetails host0 (blankTask [] [] \<lparr>note_t := None\<rparr>) = []
   \<and> flatTaskText host0 (blankTask [] [] \<lparr>note_t := None\<rparr>) 0 =
       numberToString host0 1 @ ascii ''. **'' @ ascii ''**'' @ nl_indent
   \<and> (trim [0x61, 0x62] = [0x61, 0x62] \<and> [0x61, 0x62 :: 16 word] \<noteq> [])
   \<and> formatTaskDetails host0 (blankTask [] [] \<lparr>note_t := Some [0x61, 0x62]\<rparr>) =
       [lbl_note @ [0x61, 0x62]]
   \<and> flatTaskText host0 (blankTask [] [] \<lparr>note_t := Some [0x61, 0x62]\<rparr>) 0 =
       numberToString host0 1 @ ascii ''. **'' @ ascii ''**'' @ nl_indent @ lbl_note @
       [0x61, 0x62] @ nl_indent
   \<and> (trim (replicate 61 0x61) = replicate 61 0x61 \<and> replicate 61 (0x61 :: 16 word) \<noteq> [])
   \<and> formatTaskDetails host0 (blankTask [] [] \<lparr>note_t := Some (replicate 61 0x61)\<rparr>) =
       [lbl_note @ replicate 60 0x61 @ ellipsis]
   \<and> renderTaskTree host0 (blankTask [] [] \<lparr>note_t := Some [0x61, 0x62]\<rparr>) [] True [] True [] =
       Some (nodeLines host0 (blankTask [] [] \<lparr>note_t := Some [0x61, 0x62]\<rparr>) [] True)
   \<and> nodeLines host0 (blankTask [] [] \<lparr>note_t := Some [0x61, 0x62]\<rparr>) [] True =
       [conn_last @ formatTaskName (blankTask [] [] \<lparr>note_t := Some [0x61, 0x62]\<rparr>) @ ascii '' '',
        pad_blank @ lbl_note @ [0x61, 0x62]]"
proof -
  let ?s = "blankTask [] [] \<lparr>note_t := Some [0x61, 0x62]\<rparr>"
  have leaf: "renderTaskTree host0 ?s [] True [] True [] = Some (nodeLines host0 ?s [] True)"
    by (simp add: render_leaf childrenOf_def blankTask_def)
  have f: "formatTaskLink (id_t (blankTask [] [])) = []" "name (blankTask [] []) = []"
    by (simp_all add: formatTaskLink_def blankTask_def)
  have d: "formatTaskDetails host0 ?s = [lbl_note @ [0x61, 0x62]]"
    using note_preview [where t = ?s and n = "[0x61, 0x62]" and h = host0]
    by (simp add: trim_ab blank_details)
  from note_preview [where t = "blankTask [] [] \<lparr>note_t := None\<rparr>" and h = host0 and i = 0]
    note_preview [where t = ?s and n = "[0x61, 0x62]" and h = host0 and i = 0 and p = "[]"
      and l = True]
    note_preview [where t = "blankTask [] [] \<lparr>note_t := Some (replicate 61 0x61)\<rparr>"
      and n = "replicate 61 0x61" and h = host0]
    leaf d
  show ?thesis
    by (simp add: trim_ab trim_long blank_details blank_flat f)
qed

text \<open>
  C1 as stated fails on notes with surrounding white space: a two-unit note with a leading
  space is not printed unchanged, and a note of 61 units that is one letter followed by
  spaces is not printed as its first 60 units plus the ellipsis.
\<close>

theorem note_preview_counterexample:
  "length [0x20, 0x61 :: 16 word] \<le> 60
   \<and> formatTaskDetails host0 (blankTask [] [] \<lparr>note_t := Some [0x20, 0x61]\<rparr>) =
       [lbl_note @ [0x61]]
   \<and> formatTaskDetails host0 (blankTask [] [] \<lparr>note_t := Some [0x20, 0x61]\<rparr>) \<noteq>
       [lbl_note @ [0x20, 0x61]]
   \<and> length (0x61 # replicate 60 (0x20 :: 16 word)) > 60
   \<and> formatTaskDetails host0 (blankTask [] [] \<lparr>note_t := Some (0x61 # replicate 60 0x20)\<rparr>) =
       [lbl_note @ [0x61] @ ellipsis]
   \<and> formatTaskDetails host0 (blankTask [] [] \<lparr>note_t := Some (0x61 # replicate 60 0x20)\<rparr>)
       \<noteq> [lbl_note @ take 60 (0x61 # replicate 60 0x20) @ ellipsis]"
proof -
  have t1: "trim [0x20, 0x61] = [0x61]"
    by (simp add: trim_def isWhiteSpace_def)
  have t2: "trim (0x61 # replicate 60 0x20) = [0x61]"
    by (simp add: trim_def isWhiteSpace_def dropWhile_replicate dropWhile_append3)
  have e: "ellipsis \<noteq> replicate 59 0x20 @ ellipsis"
    by (simp add: ellipsis_def ascii_def)
  show ?thesis
    using e
    by (simp add: formatTaskDetails_def blank_details details_note_cases t1 t2)
qed

subsection \<open>Estimates\<close>

lemma jsRem_mult: "0 < k \<Longrightarrow> jsRem (60 * k) 60 = 0"
  by (simp add: jsRem_def)

lemma jsRem_small0: "0 < r \<Longrightarrow> r < 60 \<Longrightarrow> jsRem r 60 = r"
  by (simp add: jsRem_def)

lemma numberToString_safe:
  "0 \<le> k \<Longrightarrow> k \<le> 9007199254740991 \<Longrightarrow> numberToString h k = digitsOf (nat k)"
  by (simp add: numberToString_def safeInteger_def)

lemma whole_hours:
  assumes "0 < k" and "60 * k \<le> 9007199254740991"
  shows "Math_floor_div h (60 * k) 60 = k" "jsRem (60 * k) 60 = 0"
  using assms by (simp_all add: Math_floor_div_def safeInteger_def jsRem_mult)

lemma minutes_only:
  assumes "0 < r" and "r < 60"
  shows "Math_floor_div h r 60 = 0" "jsRem r 60 = r"
  using assms by (simp_all add: Math_floor_div_def safeInteger_def jsRem_small0)

text \<open>The text of an estimate that is present and not zero, with the separator of the renderer.\<close>

lemma details_estimate_some:
  assumes "estimatedMinutes t = Some m" and "m \<noteq> 0"
  shows "\<exists>x. x \<noteq> [] \<and> details_estimate h t = [lbl_estimate @ x]
           \<and> flat_estimate h t = nl_indent @ lbl_estimate @ x"
  using assms by (simp add: details_estimate_def flat_estimate_def Let_def ascii_def)

lemma group_estimate_some:
  assumes "estimatedMinutes t = Some m" and "m \<noteq> 0"
  shows "\<exists>y. y \<noteq> [] \<and> group_estimate h t = lbl_duration @ y"
  using assms by (simp add: group_estimate_def Let_def ascii_def)

lemma formatTaskForGroup_eq:
  "formatTaskForGroup h t =
     ascii ''- '' @
     (if completed t then [0x2705] else if flagged t then [0xD83D, 0xDD36] else [0x25CB]) @
     ascii '' **'' @ name t @ ascii ''**'' @ group_tags t @ group_dueDate h t @
     group_estimate h t @ ascii '' '' @ formatTaskLink (id_t t)"
  by (simp add: formatTaskForGroup_def Let_def)

lemma projectSection_eq:
  "projectSection h (pr, xs) =
     [0x0A # ascii ''### '' @ [0xD83D, 0xDCC1] @ ascii '' '' @ pr, []] @
     map (formatTaskForGroup h) xs"
  by (simp add: projectSection_def)


text \<open>
  C10. In all three renderers (the detail lines of the tree renderer, the block of the flat
  renderer, the task line of the grouped renderer) a task whose estimate is missing or 0
  gets no estimate line and no duration marker, and a task whose estimate is present and not
  0 gets one: an estimate is rendered exactly when \<open>estimatedMinutes\<close> is present and
  nonzero. A whole number of hours (hours > 0, no remaining minutes) is printed as the hour
  part alone, and an estimate below one hour (hours = 0) as the minute part alone, both as
  decimal numerals. The detail lines are printed under the line of the task, and the flat
  and grouped outputs are made of the blocks and the lines of their tasks.
\<close>

theorem estimate_rendering:
  assumes "0 < k" and "60 * k \<le> 9007199254740991" and "0 < r" and "r < 60"
  shows "(estimatedMinutes t = None \<or> estimatedMinutes t = Some 0 \<longrightarrow>
      formatTaskDetails h t =
        details_project t @ details_tags t @ details_dueDate h t @ details_note t
      \<and> flatTaskText h t i =
        numberToString h (int i + 1) @ ascii ''. **'' @ name t @ ascii ''**'' @
        flat_project t @ flat_tags t @ flat_dueDate h t @ flat_flagged t @
        flat_note t @ nl_indent @ formatTaskLink (id_t t)
      \<and> formatTaskForGroup h t =
        ascii ''- '' @
        (if completed t then [0x2705] else if flagged t then [0xD83D, 0xDD36] else [0x25CB]) @
        ascii '' **'' @ name t @ ascii ''**'' @ group_tags t @ group_dueDate h t @
        ascii '' '' @ formatTaskLink (id_t t))
   \<and> (estimatedMinutes t = Some m \<and> m \<noteq> 0 \<longrightarrow>
      (\<exists>x y. x \<noteq> [] \<and> y \<noteq> []
      \<and> formatTaskDetails h t =
        details_project t @ details_tags t @ details_dueDate h t @
        [lbl_estimate @ x] @ details_note t
      \<and> flatTaskText h t i =
        numberToString h (int i + 1) @ ascii ''. **'' @ name t @ ascii ''**'' @
        flat_project t @ flat_tags t @ flat_dueDate h t @ flat_flagged t @
        nl_indent @ lbl_estimate @ x @
        flat_note t @ nl_indent @ formatTaskLink (id_t t)
      \<and> formatTaskForGroup h t =
        ascii ''- '' @
        (if completed t then [0x2705] else if flagged t then [0xD83D, 0xDD36] else [0x25CB]) @
        ascii '' **'' @ name t @ ascii ''**'' @ group_tags t @ group_dueDate h t @
        lbl_duration @ y @
        ascii '' '' @ formatTaskLink (id_t t)))
   \<and> (estimatedMinutes t = Some (60 * k) \<longrightarrow>
      formatTaskDetails h t =
        details_project t @ details_tags t @ details_dueDate h t @
        [lbl_estimate @ numberToString h k @ ascii ''h''] @ details_note t
      \<and> flatTaskText h t i =
        numberToString h (int i + 1) @ ascii ''. **'' @ name t @ ascii ''**'' @
        flat_project t @ flat_tags t @ flat_dueDate h t @ flat_flagged t @
        nl_indent @ lbl_estimate @ numberToString h k @ ascii ''h'' @
        flat_note t @ nl_indent @ formatTaskLink (id_t t)
      \<and> formatTaskForGroup h t =
        ascii ''- '' @
        (if completed t then [0x2705] else if flagged t then [0xD83D, 0xDD36] else [0x25CB]) @
        ascii '' **'' @ name t @ ascii ''**'' @ group_tags t @ group_dueDate h t @
        lbl_duration @ numberToString h k @ ascii ''h'' @
        ascii '' '' @ formatTaskLink (id_t t))
   \<and> (estimatedMinutes t = Some r \<longrightarrow>
      formatTaskDetails h t =
        details_project t @ details_tags t @ details_dueDate h t @
        [lbl_estimate @ numberToString h r @ ascii ''m''] @ details_note t
      \<and> flatTaskText h t i =
        numberToString h (int i + 1) @ ascii ''. **'' @ name t @ ascii ''**'' @
        flat_project t @ flat_tags t @ flat_dueDate h t @ flat_flagged t @
        nl_indent @ lbl_estimate @ numberToString h r @ ascii ''m'' @
        flat_note t @ nl_indent @ formatTaskLink (id_t t)
      \<and> formatTaskForGroup h t =
        ascii ''- '' @
        (if completed t then [0x2705] else if flagged t then [0xD83D, 0xDD36] else [0x25CB]) @
        ascii '' **'' @ name t @ ascii ''**'' @ group_tags t @ group_dueDate h t @
        lbl_duration @ numberToString h r @ ascii ''m'' @
        ascii '' '' @ formatTaskLink (id_t t))
   \<and> numberToString h k = digitsOf (nat k) \<and> numberToString h r = digitsOf (nat r)
   \<and> nodeLines h t p l =
       (p @ (if l then conn_last else conn_mid) @ formatTaskName t @ ascii '' '' @
          formatTaskLink (id_t t)) #
       map (\<lambda>d. (p @ (if l then pad_blank else pad_bar)) @ d) (formatTaskDetails h t)
   \<and> (renderTaskTree h t mp hide p l ls = Some out \<longrightarrow>
        (\<exists>rest. out = ls @ nodeLines h t p l @ rest))
   \<and> formatFlatTasks h pname ts lim tot =
       flatHeader h pname (length (displayTasks ts lim)) @
       join [0x0A, 0x0A]
         (map (\<lambda>(t, i). flatTaskText h t i)
            (zip (displayTasks ts lim) [0..<length (displayTasks ts lim)])) @
       flatFooter h tot (length (displayTasks ts lim))
   \<and> projectSection h (pr, xs) =
       [0x0A # ascii ''### '' @ [0xD83D, 0xDCC1] @ ascii '' '' @ pr, []] @
       map (formatTaskForGroup h) xs"
proof -
  have zero: "formatTaskDetails h t =
        details_project t @ details_tags t @ details_dueDate h t @ details_note t
      \<and> flatTaskText h t i =
        numberToString h (int i + 1) @ ascii ''. **'' @ name t @ ascii ''**'' @
        flat_project t @ flat_tags t @ flat_dueDate h t @ flat_flagged t @
        flat_note t @ nl_indent @ formatTaskLink (id_t t)
      \<and> formatTaskForGroup h t =
        ascii ''- '' @
        (if completed t then [0x2705] else if flagged t then [0xD83D, 0xDD36] else [0x25CB]) @
        ascii '' **'' @ name t @ ascii ''**'' @ group_tags t @ group_dueDate h t @
        ascii '' '' @ formatTaskLink (id_t t)"
    if "estimatedMinutes t = None \<or> estimatedMinutes t = Some 0"
    using that
    by (auto simp: formatTaskDetails_def flatTaskText_def formatTaskForGroup_eq
        details_estimate_def flat_estimate_def group_estimate_def)
  have some: "\<exists>x y. x \<noteq> [] \<and> y \<noteq> []
      \<and> formatTaskDetails h t =
        details_project t @ details_tags t @ details_dueDate h t @
        [lbl_estimate @ x] @ details_note t
      \<and> flatTaskText h t i =
        numberToString h (int i + 1) @ ascii ''. **'' @ name t @ ascii ''**'' @
        flat_project t @ flat_tags t @ flat_dueDate h t @ flat_flagged t @
        nl_indent @ lbl_estimate @ x @
        flat_note t @ nl_indent @ formatTaskLink (id_t t)
      \<and> formatTaskForGroup h t =
        ascii ''- '' @
        (if completed t then [0x2705] else if flagged t then [0xD83D, 0xDD36] else [0x25CB]) @
        ascii '' **'' @ name t @ ascii ''**'' @ group_tags t @ group_dueDate h t @
        lbl_duration @ y @
        ascii '' '' @ formatTaskLink (id_t t)"
    if "estimatedMinutes t = Some m \<and> m \<noteq> 0"
  proof -
    from that details_estimate_some [of t m h] obtain x where
      x: "x \<noteq> []" "details_estimate h t = [lbl_estimate @ x]"
        "flat_estimate h t = nl_indent @ lbl_estimate @ x"
      by blast
    from that group_estimate_some [of t m h] obtain y where
      y: "y \<noteq> []" "group_estimate h t = lbl_duration @ y"
      by blast
    have "formatTaskDetails h t =
        details_project t @ details_tags t @ details_dueDate h t @
        [lbl_estimate @ x] @ details_note t
      \<and> flatTaskText h t i =
        numberToString h (int i + 1) @ ascii ''. **'' @ name t @ ascii ''**'' @
        flat_project t @ flat_tags t @ flat_dueDate h t @ flat_flagged t @
        nl_indent @ lbl_estimate @ x @
        flat_note t @ nl_indent @ formatTaskLink (id_t t)
      \<and> formatTaskForGroup h t =
        ascii ''- '' @
        (if completed t then [0x2705] else if flagged t then [0xD83D, 0xDD36] else [0x25CB]) @
        ascii '' **'' @ name t @ ascii ''**'' @ group_tags t @ group_dueDate h t @
        lbl_duration @ y @
        ascii '' '' @ formatTaskLink (id_t t)"
      by (simp add: formatTaskDetails_def flatTaskText_def formatTaskForGroup_eq x y)
    with x(1) y(1) show ?thesis by blast
  qed
  have hours: "formatTaskDetails h t =
        details_project t @ details_tags t @ details_dueDate h t @
        [lbl_estimate @ numberToString h k @ ascii ''h''] @ details_note t
      \<and> flatTaskText h t i =
        numberToString h (int i + 1) @ ascii ''. **'' @ name t @ ascii ''**'' @
        flat_project t @ flat_tags t @ flat_dueDate h t @ flat_flagged t @
        nl_indent @ lbl_estimate @ numberToString h k @ ascii ''h'' @
        flat_note t @ nl_indent @ formatTaskLink (id_t t)
      \<and> formatTaskForGroup h t =
        ascii ''- '' @
        (if completed t then [0x2705] else if flagged t then [0xD83D, 0xDD36] else [0x25CB]) @
        ascii '' **'' @ name t @ ascii ''**'' @ group_tags t @ group_dueDate h t @
        lbl_duration @ numberToString h k @ ascii ''h'' @
        ascii '' '' @ formatTaskLink (id_t t)"
    if "estimatedMinutes t = Some (60 * k)"
    using that assms(1)
    by (simp add: formatTaskDetails_def flatTaskText_def formatTaskForGroup_eq
        details_estimate_def flat_estimate_def group_estimate_def
        whole_hours [OF assms(1,2)])
  have minutes: "formatTaskDetails h t =
        details_project t @ details_tags t @ details_dueDate h t @
        [lbl_estimate @ numberToString h r @ ascii ''m''] @ details_note t
      \<and> flatTaskText h t i =
        numberToString h (int i + 1) @ ascii ''. **'' @ name t @ ascii ''**'' @
        flat_project t @ flat_tags t @ flat_dueDate h t @ flat_flagged t @
        nl_indent @ lbl_estimate @ numberToString h r @ ascii ''m'' @
        flat_note t @ nl_indent @ formatTaskLink (id_t t)
      \<and> formatTaskForGroup h t =
        ascii ''- '' @
        (if completed t then [0x2705] else if flagged t then [0xD83D, 0xDD36] else [0x25CB]) @
        ascii '' **'' @ name t @ ascii ''**'' @ group_tags t @ group_dueDate h t @
        lbl_duration @ numberToString h r @ ascii ''m'' @
        ascii '' '' @ formatTaskLink (id_t t)"
    if "estimatedMinutes t = Some r"
    using that assms(3)
    by (simp add: formatTaskDetails_def flatTaskText_def formatTaskForGroup_eq
        details_estimate_def flat_estimate_def group_estimate_def
        minutes_only [OF assms(3,4)])
  have digits: "numberToString h k = digitsOf (nat k) \<and> numberToString h r = digitsOf (nat r)"
    using assms by (simp_all add: numberToString_safe)
  from zero some hours minutes digits nodeLines_eq [of h t p l]
    render_prints_node [of h t mp hide p l ls out] flat_output [of h pname ts lim tot]
    projectSection_eq [of h pr xs]
  show ?thesis by blast
qed


lemma blank_estimate:
  "details_project (blankTask i n\<lparr>estimatedMinutes := x\<rparr>) = []"
  "details_tags (blankTask i n\<lparr>estimatedMinutes := x\<rparr>) = []"
  "details_dueDate h (blankTask i n\<lparr>estimatedMinutes := x\<rparr>) = []"
  "details_note (blankTask i n\<lparr>estimatedMinutes := x\<rparr>) = []"
  "group_tags (blankTask i n\<lparr>estimatedMinutes := x\<rparr>) = []"
  "group_dueDate h (blankTask i n\<lparr>estimatedMinutes := x\<rparr>) = []"
  by (simp_all add: details_project_def details_tags_def details_dueDate_def details_note_def
      group_tags_def group_dueDate_def blankTask_def)

theorem estimate_rendering_witness:
  "((0::int) < 2 \<and> (60::int) * 2 \<le> 9007199254740991 \<and> (0::int) < 45 \<and> (45::int) < 60)
   \<and> estimatedMinutes (blankTask [] [] \<lparr>estimatedMinutes := Some 0\<rparr>) = Some 0
   \<and> formatTaskDetails host0 (blankTask [] [] \<lparr>estimatedMinutes := Some 0\<rparr>) = []
   \<and> formatTaskForGroup host0 (blankTask [] [] \<lparr>estimatedMinutes := Some 0\<rparr>) =
       ascii ''- '' @ [0x25CB] @ ascii '' **'' @ ascii ''**'' @ ascii '' ''
   \<and> estimatedMinutes (blankTask [] [] \<lparr>estimatedMinutes := Some 120\<rparr>) = Some (60 * 2)
   \<and> formatTaskDetails host0 (blankTask [] [] \<lparr>estimatedMinutes := Some 120\<rparr>) =
       [lbl_estimate @ ascii ''2h'']
   \<and> formatTaskForGroup host0 (blankTask [] [] \<lparr>estimatedMinutes := Some 120\<rparr>) =
       ascii ''- '' @ [0x25CB] @ ascii '' **'' @ ascii ''**'' @ lbl_duration @ ascii ''2h'' @
       ascii '' ''
   \<and> estimatedMinutes (blankTask [] [] \<lparr>estimatedMinutes := Some 45\<rparr>) = Some 45
   \<and> formatTaskDetails host0 (blankTask [] [] \<lparr>estimatedMinutes := Some 45\<rparr>) =
       [lbl_estimate @ ascii ''45m'']"
proof -
  have f: "formatTaskLink (id_t (blankTask [] [])) = []" "name (blankTask [] []) = []"
    "\<not> completed (blankTask [] [])" "\<not> flagged (blankTask [] [])"
    by (simp_all add: formatTaskLink_def blankTask_def)
  have d2: "digitsOf 2 = ascii ''2''" "digitsOf 45 = ascii ''45''"
    by (simp_all add: digitsOf.simps ascii_def)
  have a: "(0::int) < 2" "(60::int) * 2 \<le> 9007199254740991" "(0::int) < 45" "(45::int) < 60"
    by simp_all
  from estimate_rendering [OF a, where t = "blankTask [] [] \<lparr>estimatedMinutes := Some 0\<rparr>"
      and h = host0]
  have z: "formatTaskDetails host0 (blankTask [] [] \<lparr>estimatedMinutes := Some 0\<rparr>) = []"
    "formatTaskForGroup host0 (blankTask [] [] \<lparr>estimatedMinutes := Some 0\<rparr>) =
       ascii ''- '' @ [0x25CB] @ ascii '' **'' @ ascii ''**'' @ ascii '' ''"
    by (simp_all add: blank_estimate f)
  from estimate_rendering [OF a, where t = "blankTask [] [] \<lparr>estimatedMinutes := Some 120\<rparr>"
      and h = host0]
  have h2: "formatTaskDetails host0 (blankTask [] [] \<lparr>estimatedMinutes := Some 120\<rparr>) =
       [lbl_estimate @ ascii ''2h'']"
    "formatTaskForGroup host0 (blankTask [] [] \<lparr>estimatedMinutes := Some 120\<rparr>) =
       ascii ''- '' @ [0x25CB] @ ascii '' **'' @ ascii ''**'' @ lbl_duration @ ascii ''2h'' @
       ascii '' ''"
    by (simp_all add: blank_estimate f d2 ascii_def)
  from estimate_rendering [OF a, where t = "blankTask [] [] \<lparr>estimatedMinutes := Some 45\<rparr>"
      and h = host0]
  have m45: "formatTaskDetails host0 (blankTask [] [] \<lparr>estimatedMinutes := Some 45\<rparr>) =
       [lbl_estimate @ ascii ''45m'']"
    by (simp add: blank_estimate f d2 ascii_def)
  from z h2 m45 show ?thesis by simp
qed

subsection \<open>The display limit and the truncation footer\<close>

lemma flatFooter_shown: "(flatFooter h (Some c) n \<noteq> []) = (c > int n)"
  by (simp add: flatFooter_def exceeds_def)

lemma groupedFooter_shown: "(groupedFooter h (Some c) n \<noteq> []) = (c > int n)"
  by (simp add: groupedFooter_def exceeds_def)

text \<open>
  C4 (amended). The flat and the grouped renderer display the first \<open>limit\<close> tasks when the
  limit is positive, hence at most \<open>limit\<close> of them, and all tasks when it is not. Both put the
  displayed tasks between a header stating their number and the footer, and the footer
  appears exactly when the total count exceeds the number of displayed tasks (never when the
  count is missing).
\<close>

theorem display_limit:
  "(0 < lim \<longrightarrow> displayTasks ts lim = take (nat lim) ts
               \<and> int (length (displayTasks ts lim)) \<le> lim)
   \<and> (lim \<le> 0 \<longrightarrow> displayTasks ts lim = ts)
   \<and> formatFlatTasks h pname ts lim tot =
       flatHeader h pname (length (displayTasks ts lim)) @ flatTaskList h (displayTasks ts lim) @
       flatFooter h tot (length (displayTasks ts lim))
   \<and> formatGroupedByProject h pname ts lim tot =
       groupedHeader h pname (length (displayTasks ts lim))
         (length (fst (groupTasks (displayTasks ts lim)))) @
       join [0x0A] (groupedLines h (groupTasks (displayTasks ts lim))) @
       groupedFooter h tot (length (displayTasks ts lim))
   \<and> (flatFooter h (Some c) n \<noteq> []) = (c > int n)
   \<and> (groupedFooter h (Some c) n \<noteq> []) = (c > int n)
   \<and> flatFooter h None n = [] \<and> groupedFooter h None n = []"
proof -
  have pos: "0 < lim \<longrightarrow> displayTasks ts lim = take (nat lim) ts
               \<and> int (length (displayTasks ts lim)) \<le> lim"
    by (auto simp: displayTasks_def)
  have nonpos: "lim \<le> 0 \<longrightarrow> displayTasks ts lim = ts"
    by (simp add: displayTasks_def)
  have flat: "formatFlatTasks h pname ts lim tot =
       flatHeader h pname (length (displayTasks ts lim)) @ flatTaskList h (displayTasks ts lim) @
       flatFooter h tot (length (displayTasks ts lim))"
    by (simp add: formatFlatTasks_def Let_def)
  have grouped: "formatGroupedByProject h pname ts lim tot =
       groupedHeader h pname (length (displayTasks ts lim))
         (length (fst (groupTasks (displayTasks ts lim)))) @
       join [0x0A] (groupedLines h (groupTasks (displayTasks ts lim))) @
       groupedFooter h tot (length (displayTasks ts lim))"
    by (simp add: formatGroupedByProject_def Let_def)
  have none: "flatFooter h None n = []" "groupedFooter h None n = []"
    by (simp_all add: flatFooter_def groupedFooter_def exceeds_def)
  from pos nonpos flat grouped flatFooter_shown [of h c n] groupedFooter_shown [of h c n] none
  show ?thesis by blast
qed

theorem display_limit_witness:
  "(0::int) < 1
   \<and> displayTasks [treeA, treeB] 1 = [treeA]
   \<and> int (length (displayTasks [treeA, treeB] 1)) \<le> 1
   \<and> (0::int) \<le> 0
   \<and> displayTasks [treeA, treeB] 0 = [treeA, treeB]
   \<and> formatFlatTasks host0 (ascii ''P'') [treeA, treeB] 1 (Some 2) =
       flatHeader host0 (ascii ''P'') 1 @ flatTaskList host0 [treeA] @ flatFooter host0 (Some 2) 1
   \<and> flatFooter host0 (Some 2) 1 \<noteq> []"
  using display_limit [where lim = 1 and ts = "[treeA, treeB]" and h = host0
      and pname = "ascii ''P''" and tot = "Some 2" and c = 2 and n = 1]
    display_limit [where lim = 0 and ts = "[treeA, treeB]"]
  by simp

text \<open>
  C4 as stated fails for a limit that is not positive: with limit 0 one task is displayed.
\<close>

theorem display_limit_counterexample:
  "displayTasks [treeA] 0 = [treeA] \<and> \<not> int (length (displayTasks [treeA] 0)) \<le> 0"
  by (simp add: displayTasks_def)

subsection \<open>Grouping by project\<close>

lemma firstSeen_snoc:
  "firstSeen (xs @ [p]) = (if p \<in> set xs then firstSeen xs else firstSeen xs @ [p])"
  by (simp add: firstSeen_def)

lemma set_firstSeen [simp]: "set (firstSeen xs) = set xs"
  by (simp add: firstSeen_def)

lemma distinct_firstSeen [simp]: "distinct (firstSeen xs)"
  by (simp add: firstSeen_def)

lemma projectNames_snoc:
  "projectNames (ts @ [t]) =
     projectNames ts @ (case project t of Some p \<Rightarrow> if p \<noteq> [] then [p] else [] | None \<Rightarrow> [])"
  by (simp add: projectNames_def)

lemma projectNames_nonempty: "q \<in> set (projectNames ts) \<Longrightarrow> q \<noteq> []"
  by (auto simp: projectNames_def split: option.splits if_splits)

lemma projectNames_iff:
  "p \<in> set (projectNames ts) \<longleftrightarrow> p \<noteq> [] \<and> (\<exists>t \<in> set ts. project t = Some p)"
proof
  assume "p \<in> set (projectNames ts)"
  then show "p \<noteq> [] \<and> (\<exists>t \<in> set ts. project t = Some p)"
    by (auto simp: projectNames_def split: option.splits if_splits)
next
  assume a: "p \<noteq> [] \<and> (\<exists>t \<in> set ts. project t = Some p)"
  then obtain t where "t \<in> set ts" "project t = Some p" by blast
  with a show "p \<in> set (projectNames ts)"
    by (auto simp: projectNames_def intro!: bexI [of _ t])
qed

lemma no_bucket: "p \<notin> set (projectNames ts) \<Longrightarrow> p \<noteq> [] \<Longrightarrow> filter (\<lambda>t. project t = Some p) ts = []"
  by (auto simp: projectNames_iff filter_empty_conv)

lemma Map_has_bucketsSpec: "Map_has (bucketsSpec ts) p \<longleftrightarrow> p \<in> set (projectNames ts)"
  by (simp add: Map_has_def bucketsSpec_def map_of_eq_None_iff image_image)

lemma groupStep_spec:
  "groupStep (bucketsSpec ts, inboxSpec ts) t = (bucketsSpec (ts @ [t]), inboxSpec (ts @ [t]))"
proof (cases "truthy (project t)")
  case False
  then have np: "\<And>q. q \<in> set (projectNames ts) \<Longrightarrow> project t \<noteq> Some q"
    by (auto simp: truthy_def dest: projectNames_nonempty)
  from False have names: "projectNames (ts @ [t]) = projectNames ts"
    by (auto simp: projectNames_snoc truthy_def split: option.splits)
  have "bucketsSpec (ts @ [t]) = bucketsSpec ts"
    unfolding bucketsSpec_def names by (rule map_cong) (auto simp: np)
  with False show ?thesis
    by (simp add: groupStep_def inboxSpec_def)
next
  case True
  then obtain p where p: "project t = Some p" "p \<noteq> []"
    by (auto simp: truthy_def split: option.splits)
  have names: "projectNames (ts @ [t]) = projectNames ts @ [p]"
    by (simp add: projectNames_snoc p)
  have inbox: "inboxSpec (ts @ [t]) = inboxSpec ts"
    using True by (simp add: inboxSpec_def)
  show ?thesis
  proof (cases "p \<in> set (projectNames ts)")
    case seen: True
    have "Map_push (bucketsSpec ts) p t = bucketsSpec (ts @ [t])"
      unfolding bucketsSpec_def names Map_push_def
      by (auto simp: firstSeen_snoc seen p)
    with seen True p inbox show ?thesis
      by (simp add: groupStep_def Map_has_bucketsSpec)
  next
    case new: False
    have keep: "map (\<lambda>(k', v'). if k' = p then (k', v' @ [t]) else (k', v')) (bucketsSpec ts) =
        bucketsSpec ts"
      using new by (auto simp: bucketsSpec_def intro!: map_idI)
    have same: "map (\<lambda>q. (q, filter (\<lambda>t. project t = Some q) (ts @ [t]))) (firstSeen (projectNames ts)) =
        bucketsSpec ts"
      unfolding bucketsSpec_def using new by (intro map_cong) (auto simp: p)
    have "Map_push (Map_set (bucketsSpec ts) p []) p t = bucketsSpec (ts @ [t])"
      using new
      by (simp add: Map_set_def Map_has_bucketsSpec Map_push_def keep)
         (auto simp: bucketsSpec_def names firstSeen_snoc same [unfolded bucketsSpec_def] no_bucket p)
    with new True p inbox show ?thesis
      by (simp add: groupStep_def Map_has_bucketsSpec)
  qed
qed

lemma groupTasks_spec: "groupTasks ts = (bucketsSpec ts, inboxSpec ts)"
proof (induction ts rule: rev_induct)
  case Nil
  show ?case
    by (simp add: groupTasks_def bucketsSpec_def inboxSpec_def projectNames_def firstSeen_def)
next
  case (snoc t ts)
  have "groupTasks (ts @ [t]) = groupStep (groupTasks ts) t"
    by (simp add: groupTasks_def)
  then show ?case
    by (simp add: snoc.IH groupStep_spec)
qed


text \<open>
  C8. The grouped renderer's buckets are the project names in first-seen order, one bucket
  per name, each holding the tasks of that project in their original order; the tasks
  without a project form the inbox. The output is the header, then for each project in that
  order its heading, an empty line and the lines of its tasks, then, only when the inbox is
  not empty, the inbox heading, an empty line and the lines of the inbox tasks, and last the
  footer. The header states the number of displayed tasks and the number of project
  buckets, the inbox not counted, and the line of a task shows its name and ends with its
  link.
\<close>

theorem project_grouping:
  "groupTasks ts = (bucketsSpec ts, inboxSpec ts)
   \<and> map fst (fst (groupTasks ts)) = firstSeen (projectNames ts)
   \<and> distinct (map fst (fst (groupTasks ts)))
   \<and> formatGroupedByProject h pname ts lim tot =
       groupedHeader h pname (length (displayTasks ts lim))
         (length (firstSeen (projectNames (displayTasks ts lim)))) @
       join [0x0A]
         (concat (map (\<lambda>pr.
                    [0x0A # ascii ''### '' @ [0xD83D, 0xDCC1] @ ascii '' '' @ pr, []] @
                    map (formatTaskForGroup h)
                      (filter (\<lambda>t. project t = Some pr) (displayTasks ts lim)))
                  (firstSeen (projectNames (displayTasks ts lim)))) @
          (if inboxSpec (displayTasks ts lim) = [] then []
           else [0x0A # ascii ''### '' @ [0xD83D, 0xDCE5] @ ascii '' '' @
                   [0x6536, 0x4EF6, 0x7BB1], []] @
                map (formatTaskForGroup h) (inboxSpec (displayTasks ts lim)))) @
       groupedFooter h tot (length (displayTasks ts lim))
   \<and> groupedHeader h pname n g =
       ascii ''## '' @ [0x900F, 0x89C6, 0x4EFB, 0x52A1, 0xFF1A] @ pname @ [0x0A, 0x0A] @
       ascii ''**'' @ [0x5171] @ ascii '' '' @ numberToString h (int n) @ ascii '' '' @
       [0x4E2A, 0x4EFB, 0x52A1, 0xFF0C] @ numberToString h (int g) @ ascii '' '' @
       [0x4E2A, 0x9879, 0x76EE] @ ascii ''**''
   \<and> formatTaskForGroup h t =
       ascii ''- '' @
       (if completed t then [0x2705] else if flagged t then [0xD83D, 0xDD36] else [0x25CB]) @
       ascii '' **'' @ name t @ ascii ''**'' @ group_tags t @ group_dueDate h t @
       group_estimate h t @ ascii '' '' @ formatTaskLink (id_t t)"
proof -
  have keys: "map fst (bucketsSpec xs) = firstSeen (projectNames xs)" for xs
    by (simp add: bucketsSpec_def comp_def)
  have sections: "concat (map (projectSection h) (bucketsSpec xs)) =
      concat (map (\<lambda>pr.
                    [0x0A # ascii ''### '' @ [0xD83D, 0xDCC1] @ ascii '' '' @ pr, []] @
                    map (formatTaskForGroup h) (filter (\<lambda>t. project t = Some pr) xs))
                  (firstSeen (projectNames xs)))" for xs
    by (simp add: bucketsSpec_def comp_def projectSection_eq)
  have inbox: "inboxSection h ys =
      (if ys = [] then []
       else [0x0A # ascii ''### '' @ [0xD83D, 0xDCE5] @ ascii '' '' @ [0x6536, 0x4EF6, 0x7BB1], []] @
            map (formatTaskForGroup h) ys)" for ys
    by (simp add: inboxSection_def)
  have lines: "groupedLines h (groupTasks xs) =
      concat (map (projectSection h) (bucketsSpec xs)) @ inboxSection h (inboxSpec xs)" for xs
    by (simp add: groupTasks_spec groupedLines_def)
  have out: "formatGroupedByProject h pname ts lim tot =
       groupedHeader h pname (length (displayTasks ts lim))
         (length (firstSeen (projectNames (displayTasks ts lim)))) @
       join [0x0A]
         (concat (map (\<lambda>pr.
                    [0x0A # ascii ''### '' @ [0xD83D, 0xDCC1] @ ascii '' '' @ pr, []] @
                    map (formatTaskForGroup h)
                      (filter (\<lambda>t. project t = Some pr) (displayTasks ts lim)))
                  (firstSeen (projectNames (displayTasks ts lim)))) @
          (if inboxSpec (displayTasks ts lim) = [] then []
           else [0x0A # ascii ''### '' @ [0xD83D, 0xDCE5] @ ascii '' '' @
                   [0x6536, 0x4EF6, 0x7BB1], []] @
                map (formatTaskForGroup h) (inboxSpec (displayTasks ts lim)))) @
       groupedFooter h tot (length (displayTasks ts lim))"
  proof -
    have "length (fst (groupTasks (displayTasks ts lim))) =
        length (firstSeen (projectNames (displayTasks ts lim)))"
      using keys [of "displayTasks ts lim"] by (simp add: groupTasks_spec) (metis length_map)
    then show ?thesis
      unfolding formatGroupedByProject_def Let_def lines sections inbox by simp
  qed
  have hdr: "groupedHeader h pname n g =
       ascii ''## '' @ [0x900F, 0x89C6, 0x4EFB, 0x52A1, 0xFF1A] @ pname @ [0x0A, 0x0A] @
       ascii ''**'' @ [0x5171] @ ascii '' '' @ numberToString h (int n) @ ascii '' '' @
       [0x4E2A, 0x4EFB, 0x52A1, 0xFF0C] @ numberToString h (int g) @ ascii '' '' @
       [0x4E2A, 0x9879, 0x76EE] @ ascii ''**''"
    by (simp add: groupedHeader_def)
  from groupTasks_spec [of ts] keys [of ts] out hdr formatTaskForGroup_eq [of h t]
  show ?thesis by simp
qed

theorem project_grouping_witness:
  "groupTasks [alpha1, loose2, alpha3] = ([(ascii ''Alpha'', [alpha1, alpha3])], [loose2])
   \<and> formatGroupedByProject host0 (ascii ''P'') [alpha1, loose2, alpha3] 10 (Some 3) =
       groupedHeader host0 (ascii ''P'') 3 1 @
       join [0x0A]
         [0x0A # ascii ''### '' @ [0xD83D, 0xDCC1] @ ascii '' '' @ ascii ''Alpha'', [],
          formatTaskForGroup host0 alpha1, formatTaskForGroup host0 alpha3,
          0x0A # ascii ''### '' @ [0xD83D, 0xDCE5] @ ascii '' '' @ [0x6536, 0x4EF6, 0x7BB1], [],
          formatTaskForGroup host0 loose2]
   \<and> formatTaskForGroup host0 loose2 =
       ascii ''- '' @ [0x25CB] @ ascii '' **'' @ ascii ''two'' @ ascii ''**'' @ ascii '' '' @
       formatTaskLink (ascii ''2'')"
proof -
  let ?ts = "[alpha1, loose2, alpha3]"
  have n: "projectNames ?ts = [ascii ''Alpha'', ascii ''Alpha'']"
    by (simp add: projectNames_def alpha1_def loose2_def alpha3_def blankTask_def ascii_def)
  have f: "firstSeen [ascii ''Alpha'', ascii ''Alpha''] = [ascii ''Alpha'']"
    by (simp add: firstSeen_def)
  have fl: "filter (\<lambda>t. project t = Some (ascii ''Alpha'')) ?ts = [alpha1, alpha3]"
    by (simp add: alpha1_def loose2_def alpha3_def blankTask_def)
  have b: "bucketsSpec ?ts = [(ascii ''Alpha'', [alpha1, alpha3])]"
    by (simp only: bucketsSpec_def n f list.map fl)
  have i: "inboxSpec ?ts = [loose2]"
    by (simp add: inboxSpec_def truthy_def alpha1_def loose2_def alpha3_def blankTask_def ascii_def)
  have d: "displayTasks ?ts 10 = ?ts"
    by (simp add: displayTasks_def)
  have e: "groupedFooter host0 (Some 3) 3 = []"
    by (simp add: groupedFooter_def exceeds_def)
  have len: "length ?ts = 3" "length [ascii ''Alpha''] = 1"
    by simp_all
  note g = project_grouping [where ts = ?ts and h = host0 and pname = "ascii ''P''" and lim = 10
      and tot = "Some 3" and t = loose2]
  have g1: "groupTasks ?ts = ([(ascii ''Alpha'', [alpha1, alpha3])], [loose2])"
    using g by (simp only: b i)
  have g2: "formatGroupedByProject host0 (ascii ''P'') ?ts 10 (Some 3) =
       groupedHeader host0 (ascii ''P'') 3 1 @
       join [0x0A]
         [0x0A # ascii ''### '' @ [0xD83D, 0xDCC1] @ ascii '' '' @ ascii ''Alpha'', [],
          formatTaskForGroup host0 alpha1, formatTaskForGroup host0 alpha3,
          0x0A # ascii ''### '' @ [0xD83D, 0xDCE5] @ ascii '' '' @ [0x6536, 0x4EF6, 0x7BB1], [],
          formatTaskForGroup host0 loose2]"
  proof -
    from g have "formatGroupedByProject host0 (ascii ''P'') ?ts 10 (Some 3) =
       groupedHeader host0 (ascii ''P'') (length (displayTasks ?ts 10))
         (length (firstSeen (projectNames (displayTasks ?ts 10)))) @
       join [0x0A]
         (concat (map (\<lambda>pr.
                    [0x0A # ascii ''### '' @ [0xD83D, 0xDCC1] @ ascii '' '' @ pr, []] @
                    map (formatTaskForGroup host0)
                      (filter (\<lambda>t. project t = Some pr) (displayTasks ?ts 10)))
                  (firstSeen (projectNames (displayTasks ?ts 10)))) @
          (if inboxSpec (displayTasks ?ts 10) = [] then []
           else [0x0A # ascii ''### '' @ [0xD83D, 0xDCE5] @ ascii '' '' @
                   [0x6536, 0x4EF6, 0x7BB1], []] @
                map (formatTaskForGroup host0) (inboxSpec (displayTasks ?ts 10)))) @
       groupedFooter host0 (Some 3) (length (displayTasks ?ts 10))"
      by blast
    then show ?thesis
      unfolding d n f i len e
      by (simp only: list.map concat.simps fl append.simps append_Nil2 if_False
          not_Cons_self2 list.simps)
  qed
  have g3: "formatTaskForGroup host0 loose2 =
       ascii ''- '' @ [0x25CB] @ ascii '' **'' @ ascii ''two'' @ ascii ''**'' @ ascii '' '' @
       formatTaskLink (ascii ''2'')"
    using g
    by (simp add: loose2_def blankTask_def group_tags_def group_dueDate_def group_estimate_def)
  from g1 g2 g3 show ?thesis by blast
qed

subsection \<open>Dispatch\<close>

lemma reaches_dispatch:
  assumes "perspectiveName opts \<noteq> []"
    and "normalize h result = Inr data"
    and "checkSuccess h data = Inr r"
  shows "getCustomPerspectiveTasks h opts result =
     (case renderData h (perspectiveName opts) (opt_hideCompleted opts) (opt_limit opts)
             (opt_showHierarchy opts) (opt_groupByProject opts) r of
        None \<Rightarrow> error_marker @ rangeErrorMessage h
      | Some out \<Rightarrow> out)"
  using assms
  by (simp add: getCustomPerspectiveTasks_def tryBlock_def Let_def split: option.splits)

text \<open>
  C5. When the name is not empty, the result is a success and some task is left after the
  filter, exactly one renderer produces the output: the hierarchical one when
  \<open>showHierarchy\<close> is true, whatever \<open>groupByProject\<close> is (its output, or the caught error of
  the exhausted stack when it does not return); otherwise the flat one when
  \<open>groupByProject\<close> is false, and the grouped one when it is true or left to its default.
\<close>

theorem render_dispatch:
  assumes "perspectiveName opts \<noteq> []"
    and "normalize h result = Inr data"
    and "checkSuccess h data = Inr r"
    and "filteredTasks (taskMapOf r) (opt_hideCompleted opts) \<noteq> []"
  shows "getCustomPerspectiveTasks h opts result =
     (case showHierarchy opts of
        Some True \<Rightarrow>
          (case formatHierarchicalTasks h (perspectiveName opts) (taskMapOf r)
                  (opt_hideCompleted opts) of
             Some out \<Rightarrow> out
           | None \<Rightarrow> error_marker @ rangeErrorMessage h)
      | _ \<Rightarrow>
          (case groupByProject opts of
             Some False \<Rightarrow>
               formatFlatTasks h (perspectiveName opts)
                 (filteredTasks (taskMapOf r) (opt_hideCompleted opts)) (opt_limit opts) (count r)
           | _ \<Rightarrow>
               formatGroupedByProject h (perspectiveName opts)
                 (filteredTasks (taskMapOf r) (opt_hideCompleted opts)) (opt_limit opts) (count r)))"
proof -
  have rd: "renderData h (perspectiveName opts) (opt_hideCompleted opts) (opt_limit opts)
      hier grp r =
      (if hier then formatHierarchicalTasks h (perspectiveName opts) (taskMapOf r) (opt_hideCompleted opts)
       else if grp then Some (formatGroupedByProject h (perspectiveName opts)
                 (filteredTasks (taskMapOf r) (opt_hideCompleted opts)) (opt_limit opts) (count r))
       else Some (formatFlatTasks h (perspectiveName opts)
                 (filteredTasks (taskMapOf r) (opt_hideCompleted opts)) (opt_limit opts) (count r)))"
    for hier grp
    using assms(4) by (simp add: renderData_def Let_def)
  show ?thesis
    unfolding reaches_dispatch [OF assms(1-3)] rd
    by (simp add: opt_showHierarchy_def opt_groupByProject_def split: option.splits bool.splits)
qed

lemma okResponse_filtered: "filteredTasks (taskMapOf okResponse) True = [treeA, treeB]"
  by (simp add: filteredTasks_def taskMapOf_def okResponse_def Object_values_def treeMap_def
      treeA_def treeB_def blankTask_def)

lemma okResponse_fields: "count okResponse = Some 2" "taskMapOf okResponse = treeMap"
  by (simp_all add: okResponse_def taskMapOf_def)

lemma treeMap_output:
  "formatHierarchicalTasks h pname treeMap True =
     Some (hierarchyHeader pname @
           join [0x0A] (nodeLines h treeA [] True @ nodeLines h treeB pad_blank True))"
proof -
  have "taskTreeLines h treeMap True =
      Some (nodeLines h treeA [] True @ nodeLines h treeB pad_blank True)"
    by (simp add: taskTreeLines_def treeMap_roots render_one_child treeMap_children
        childPrefix_def)
  then show ?thesis
    by (simp add: formatHierarchicalTasks_def treeMap_roots)
qed

theorem render_dispatch_witness:
  "perspectiveName plainOptions \<noteq> []
   \<and> normalize host0 (ReturnedObject okResponse) = Inr (JObject okResponse)
   \<and> checkSuccess host0 (JObject okResponse) = Inr okResponse
   \<and> filteredTasks (taskMapOf okResponse) (opt_hideCompleted plainOptions) \<noteq> []
   \<and> getCustomPerspectiveTasks host0 plainOptions (ReturnedObject okResponse) =
       formatGroupedByProject host0 (ascii ''P'') [treeA, treeB] 1000 (Some 2)
   \<and> getCustomPerspectiveTasks host0 (plainOptions\<lparr>showHierarchy := Some True\<rparr>)
         (ReturnedObject okResponse) =
       hierarchyHeader (ascii ''P'') @
       join [0x0A] (nodeLines host0 treeA [] True @ nodeLines host0 treeB pad_blank True)
   \<and> getCustomPerspectiveTasks host0 (plainOptions\<lparr>groupByProject := Some False\<rparr>)
         (ReturnedObject okResponse) =
       formatFlatTasks host0 (ascii ''P'') [treeA, treeB] 1000 (Some 2)"
proof -
  have n: "normalize host0 (ReturnedObject okResponse) = Inr (JObject okResponse)"
    by (simp add: normalize_def)
  have c: "checkSuccess host0 (JObject okResponse) = Inr okResponse"
    by (simp add: checkSuccess_def okResponse_def)
  have p: "perspectiveName (plainOptions\<lparr>showHierarchy := x, groupByProject := y\<rparr>) \<noteq> []" for x y
    by (simp add: plainOptions_def ascii_def)
  have f: "filteredTasks (taskMapOf okResponse)
      (opt_hideCompleted (plainOptions\<lparr>showHierarchy := x, groupByProject := y\<rparr>)) \<noteq> []" for x y
    by (simp add: opt_hideCompleted_def plainOptions_def okResponse_filtered)
  have g: "getCustomPerspectiveTasks host0 (plainOptions\<lparr>showHierarchy := x, groupByProject := y\<rparr>)
         (ReturnedObject okResponse) =
     (case x of
        Some True \<Rightarrow>
          hierarchyHeader (ascii ''P'') @
          join [0x0A] (nodeLines host0 treeA [] True @ nodeLines host0 treeB pad_blank True)
      | _ \<Rightarrow>
          (case y of
             Some False \<Rightarrow> formatFlatTasks host0 (ascii ''P'') [treeA, treeB] 1000 (Some 2)
           | _ \<Rightarrow> formatGroupedByProject host0 (ascii ''P'') [treeA, treeB] 1000 (Some 2)))"
    for x y
    using render_dispatch [OF p [where x = x and y = y] n c f [where x = x and y = y]]
      okResponse_filtered okResponse_fields
    by (simp add: opt_hideCompleted_def opt_limit_def plainOptions_def treeMap_output
        split: option.splits bool.splits)
  have o: "plainOptions\<lparr>showHierarchy := None, groupByProject := None\<rparr> = plainOptions"
    "plainOptions\<lparr>showHierarchy := Some True, groupByProject := None\<rparr> =
       plainOptions\<lparr>showHierarchy := Some True\<rparr>"
    "plainOptions\<lparr>showHierarchy := None, groupByProject := Some False\<rparr> =
       plainOptions\<lparr>groupByProject := Some False\<rparr>"
    by (simp_all add: plainOptions_def)
  from g [where x = None and y = None] g [where x = "Some True" and y = None]
    g [where x = None and y = "Some False"]
    n c p [where x = None and y = None] f [where x = None and y = None]
  show ?thesis
    unfolding o by simp
qed

subsection \<open>Error paths of the orchestrator\<close>








end
